theory Spec2Isabelle
  imports Complex_Main "HOL-Library.Finite_Map" "HOL-Library.FSet" "HOL-Library.Product_Lexorder"
begin

section \<open>Association of timestamped series (tum\_loader.py, euroc\_loader.py)\<close>

text \<open>
  A Python dict is a finite map \<open>('k, 'v) fmap\<close>; a Python set of keys is a \<open>'k fset\<close>.
  Timestamps are floats in the TUM loader and ints in the EuRoC loader; the model is
  generic in a linearly ordered key type. A row \<open>[key, v0, v1, ..., vN]\<close> is the pair of
  its key and the list of its payloads.

  \<open>sorted(rows)\<close> compares rows lexicographically. The keys of the rows come from a set,
  so two rows always differ in their first element and the order of the rows is the order
  of their keys: the model builds the rows over the ascending list of the keys.
\<close>

datatype py_error = KeyError | FileNotFoundError | NotADirectoryError | RuntimeError

type_synonym ('k, 'v) row = "'k \<times> 'v list"

text \<open>\<open>m[k]\<close>: raises KeyError when the key is missing.\<close>

definition getitem :: "('k, 'v) fmap \<Rightarrow> 'k \<Rightarrow> py_error + 'v" where
  "getitem m k = (case fmlookup m k of None \<Rightarrow> Inl KeyError | Some v \<Rightarrow> Inr v)"

text \<open>\<open>[m[key] for m in maps]\<close>\<close>

fun lookup_all :: "'k \<Rightarrow> ('k, 'v) fmap list \<Rightarrow> py_error + 'v list" where
  "lookup_all key [] = Inr []"
| "lookup_all key (m # ms) =
     (case getitem m key of
        Inl e \<Rightarrow> Inl e
      | Inr v \<Rightarrow> (case lookup_all key ms of Inl e \<Rightarrow> Inl e | Inr vs \<Rightarrow> Inr (v # vs)))"

text \<open>\<open>[key, root_map[key]] + [m[key] for m in maps]\<close>\<close>

definition make_row :: "('k, 'v) fmap \<Rightarrow> ('k, 'v) fmap list \<Rightarrow> 'k \<Rightarrow> py_error + ('k, 'v) row" where
  "make_row root_map maps key =
     (case getitem root_map key of
        Inl e \<Rightarrow> Inl e
      | Inr v \<Rightarrow> (case lookup_all key maps of Inl e \<Rightarrow> Inl e | Inr vs \<Rightarrow> Inr (key, v # vs)))"

text \<open>The generator of rows over the keys, stopping at the first KeyError.\<close>

fun make_rows :: "('k, 'v) fmap \<Rightarrow> ('k, 'v) fmap list \<Rightarrow> 'k list \<Rightarrow> py_error + ('k, 'v) row list" where
  "make_rows root_map maps [] = Inr []"
| "make_rows root_map maps (key # keys) =
     (case make_row root_map maps key of
        Inl e \<Rightarrow> Inl e
      | Inr r \<Rightarrow> (case make_rows root_map maps keys of Inl e \<Rightarrow> Inl e | Inr rs \<Rightarrow> Inr (r # rs)))"

text \<open>
  \<open>{root_key: other_map[other_key] for root_key, other_key in matches}\<close>:
  a later match of the same root key overwrites an earlier one.
\<close>

fun rekey :: "('k, 'v) fmap \<Rightarrow> ('k \<times> 'k) list \<Rightarrow> ('k, 'v) fmap \<Rightarrow> py_error + ('k, 'v) fmap" where
  "rekey other_map [] acc = Inr acc"
| "rekey other_map ((root_key, other_key) # matches) acc =
     (case getitem other_map other_key of
        Inl e \<Rightarrow> Inl e
      | Inr v \<Rightarrow> rekey other_map matches (fmupd root_key v acc))"

text \<open>
  The loop of the general path. \<open>assoc\<close> is \<open>arvet.util.associate.associate\<close> with the
  loader's offset and tolerance fixed (\<open>offset=0\<close>, \<open>max_difference=1\<close> for TUM and \<open>3\<close>
  for EuRoC); it is a function of another package and a parameter of the model.
\<close>

fun rekey_all ::
  "(('k, 'v) fmap \<Rightarrow> ('k, 'v) fmap \<Rightarrow> ('k \<times> 'k) list) \<Rightarrow> ('k, 'v) fmap \<Rightarrow> ('k, 'v) fmap list \<Rightarrow>
   'k fset \<Rightarrow> ('k, 'v) fmap list \<Rightarrow> py_error + ('k fset \<times> ('k, 'v) fmap list)" where
  "rekey_all assoc root_map [] root_keys rekeyed_maps = Inr (root_keys, rekeyed_maps)"
| "rekey_all assoc root_map (other_map # rest) root_keys rekeyed_maps =
     (case rekey other_map (assoc root_map other_map) fmempty of
        Inl e \<Rightarrow> Inl e
      | Inr rekeyed_map \<Rightarrow>
          rekey_all assoc root_map rest (root_keys |\<inter>| fmdom rekeyed_map)
            (rekeyed_maps @ [rekeyed_map]))"

definition associate_data ::
  "(('k::linorder, 'v) fmap \<Rightarrow> ('k, 'v) fmap \<Rightarrow> ('k \<times> 'k) list) \<Rightarrow> ('k, 'v) fmap \<Rightarrow>
   ('k, 'v) fmap list \<Rightarrow> py_error + ('k, 'v) row list" where
  "associate_data assoc root_map args =
     (if length args \<le> 0 then make_rows root_map [] (sorted_list_of_fset (fmdom root_map))
      else
        let root_keys = fmdom root_map;
            all_same = list_all (\<lambda>other_map. fmdom other_map = root_keys) args
        in if all_same then make_rows root_map args (sorted_list_of_fset root_keys)
           else
             (case rekey_all assoc root_map args root_keys [] of
                Inl e \<Rightarrow> Inl e
              | Inr (root_keys', rekeyed_maps) \<Rightarrow>
                  make_rows root_map rekeyed_maps (sorted_list_of_fset root_keys')))"

subsection \<open>The matcher\<close>

text \<open>
  Modelled from the spec: \<open>arvet.util.associate.associate\<close>, which is not part of the
  sources. Section 4.1 and the design notes describe it: every pair of a reference key and a
  secondary key whose absolute difference does not exceed \<open>max_difference\<close> is a candidate;
  the candidates are sorted by their difference and consumed greedily, a pair being rejected
  when one of its keys is already claimed. It serves as an instance of the parameter
  \<open>assoc\<close> above, on integer timestamps.
\<close>

definition potential_matches :: "int list \<Rightarrow> int list \<Rightarrow> int \<Rightarrow> int \<Rightarrow> (int \<times> int \<times> int) list" where
  "potential_matches first_keys second_keys offset max_difference =
     sort (concat (map (\<lambda>a. map (\<lambda>b. (\<bar>a - (b + offset)\<bar>, a, b))
                              (filter (\<lambda>b. \<bar>a - (b + offset)\<bar> \<le> max_difference) second_keys))
                       first_keys))"

fun consume :: "(int \<times> int \<times> int) list \<Rightarrow> int list \<Rightarrow> int list \<Rightarrow> (int \<times> int) list" where
  "consume [] first_keys second_keys = []"
| "consume ((d, a, b) # rest) first_keys second_keys =
     (if a \<in> set first_keys \<and> b \<in> set second_keys
      then (a, b) # consume rest (removeAll a first_keys) (removeAll b second_keys)
      else consume rest first_keys second_keys)"

definition associate :: "int \<Rightarrow> int \<Rightarrow> (int, 'v) fmap \<Rightarrow> (int, 'v) fmap \<Rightarrow> (int \<times> int) list" where
  "associate offset max_difference first_map second_map =
     (let first_keys = sorted_list_of_fset (fmdom first_map);
          second_keys = sorted_list_of_fset (fmdom second_map)
      in consume (potential_matches first_keys second_keys offset max_difference)
           first_keys second_keys)"

text \<open>
  The reference keys that found a match in every secondary series: the intersection of
  the reference key set with the first components of every series' matches.
\<close>

definition matched_keys ::
  "(('k, 'v) fmap \<Rightarrow> ('k, 'v) fmap \<Rightarrow> ('k \<times> 'k) list) \<Rightarrow> ('k, 'v) fmap \<Rightarrow> ('k, 'v) fmap list \<Rightarrow> 'k fset" where
  "matched_keys assoc root_map args =
     ffilter (\<lambda>k. \<forall>other \<in> set args. k \<in> fst ` set (assoc root_map other)) (fmdom root_map)"

section \<open>Poses and the axis remap (tum\_loader.py, euroc\_loader.py)\<close>

text \<open>
  \<open>arvet.util.transform.Transform\<close> belongs to another package. The model keeps what its
  constructor is given: the location and the orientation, in the representation handed to
  the constructor (a quaternion with the scalar part first for the loaders). Python floats
  are idealised as reals; the remap only permutes and negates coordinates, which is exact
  in floating point as well.
\<close>

type_synonym vec3 = "real \<times> real \<times> real"

type_synonym quat = "real \<times> real \<times> real \<times> real"

record 'r Transform =
  location :: vec3
  rotation :: 'r

definition make_camera_pose ::
  "real \<Rightarrow> real \<Rightarrow> real \<Rightarrow> real \<Rightarrow> real \<Rightarrow> real \<Rightarrow> real \<Rightarrow> quat Transform" where
  "make_camera_pose tx ty tz qw qx qy qz =
     \<lparr>location = (tz, - tx, - ty), rotation = (qw, qz, - qx, - qy)\<rparr>"

text \<open>
  Modelled from the spec: \<open>arvet_slam.systems.slam.orbslam2.make_relative_pose\<close>, the
  harness-side conversion of a worker pose, whose module is not among the sources (its tests
  are). Section 4.2: the worker's pose matrix uses the algorithm's native axis convention and
  the harness remaps the translation \<open>(tx, ty, tz)\<close> to \<open>(tz, -tx, -ty)\<close> and the rotation
  accordingly. The matrix is given by its three rows \<open>(r0, r1, r2, t)\<close> (the 12 row-major
  values; the fourth row of a 4x4 matrix carries no information). The rotation block is
  conjugated by the same axis permutation, which is what the tests of
  \<open>test_changes_rotation_each_axis\<close> observe.
\<close>

type_synonym mat_row = "real \<times> real \<times> real \<times> real"

type_synonym pose_matrix = "mat_row \<times> mat_row \<times> mat_row"

type_synonym mat3 = "vec3 \<times> vec3 \<times> vec3"

fun matrix_translation :: "pose_matrix \<Rightarrow> vec3" where
  "matrix_translation ((r00, r01, r02, tx), (r10, r11, r12, ty), (r20, r21, r22, tz)) = (tx, ty, tz)"

fun make_relative_pose :: "pose_matrix \<Rightarrow> mat3 Transform" where
  "make_relative_pose ((r00, r01, r02, tx), (r10, r11, r12, ty), (r20, r21, r22, tz)) =
     \<lparr>location = (tz, - tx, - ty),
      rotation = ((r22, - r20, - r21), (- r02, r00, r01), (- r12, r10, r11))\<rparr>"

section \<open>Trial execution protocol\<close>

text \<open>
  Modelled from the spec: the trial object of \<open>arvet_slam.systems.slam.orbslam2.OrbSlam2\<close>
  (\<open>start_trial\<close>, \<open>process_image\<close>, \<open>finish_trial\<close>), whose module is not among the sources
  (its tests are). Section 4.2 gives the state machine and what \<open>finish()\<close> does with the
  worker's payload; sections 6 and 7 give the payload's shape and the errors. The worker is
  another process: what it answers is an argument of the model (\<open>None\<close> when the wait
  times out). The log is the list of the timestamps warned about.
\<close>

datatype TrackingState = NOT_INITIALIZED | OK | LOST

datatype TrialState = NOT_STARTED | RUNNING | FINISHED | FAILED

text \<open>\<open>[processing_time, num_features, num_matches, tracking_state, pose_matrix]\<close>\<close>

record frame_stats =
  stats_processing_time :: real
  stats_num_features :: int
  stats_num_matches :: int
  stats_tracking_state :: TrackingState
  stats_pose :: "pose_matrix option"

text \<open>
  The fields of a FrameRecord that \<open>finish()\<close> fills from the worker's payload. They carry
  the prefix \<open>frame_\<close>, since a record field is a constant of the theory.
\<close>

record 't FrameRecord =
  frame_timestamp :: 't
  frame_processing_time :: real
  frame_num_features :: int
  frame_num_matches :: int
  frame_tracking_state :: TrackingState
  frame_estimated_pose :: "mat3 Transform option"

record ('t, 'f) trial =
  state :: TrialState
  fed :: "('t \<times> 'f) list"

text \<open>
  The finished trial result and what \<open>finish()\<close> logged: \<open>warnings\<close> are the returned
  timestamps with no fed frame (section 4.2), \<open>missing_frames\<close> the fed timestamps the worker
  returned nothing for, which are logged as well (section 8).
\<close>

record 't trial_result =
  success :: bool
  results :: "'t FrameRecord list"
  warnings :: "'t list"
  missing_frames :: "'t list"

text \<open>
  \<open>start(sequence_type)\<close>: a no-op for a source that is not sequential; rejected while a
  trial is running (section 8); otherwise the worker is spawned and the harness waits for
  its readiness acknowledgment; without it the start fails with a startup error.
\<close>

definition start :: "bool \<Rightarrow> bool \<Rightarrow> ('t, 'f) trial \<Rightarrow> ('t, 'f) trial \<times> (py_error + unit)" where
  "start sequential ready tr =
     (if \<not> sequential then (tr, Inr ())
      else if state tr = RUNNING then (tr, Inl RuntimeError)
      else if ready then (tr\<lparr>state := RUNNING, fed := []\<rparr>, Inr ())
      else (tr\<lparr>state := FAILED\<rparr>, Inl RuntimeError))"

text \<open>
  \<open>process(frame, timestamp)\<close>: pushes the pair onto the feed channel; a usage error
  before \<open>start\<close>.
\<close>

definition process :: "'f \<Rightarrow> 't \<Rightarrow> ('t, 'f) trial \<Rightarrow> ('t, 'f) trial \<times> (py_error + unit)" where
  "process frame t tr =
     (if state tr \<noteq> RUNNING then (tr, Inl RuntimeError)
      else (tr\<lparr>fed := fed tr @ [(t, frame)]\<rparr>, Inr ()))"

text \<open>
  The caller's loop over the frames of a sequence: \<open>process\<close> is called once for each
  frame with its timestamp, in order, and the loop stops at the first error.
\<close>

fun process_all :: "('t \<times> 'f) list \<Rightarrow> ('t, 'f) trial \<Rightarrow> ('t, 'f) trial \<times> (py_error + unit)" where
  "process_all [] tr = (tr, Inr ())"
| "process_all ((t, frame) # rest) tr =
     (case process frame t tr of
        (tr', Inl e) \<Rightarrow> (tr', Inl e)
      | (tr', Inr u) \<Rightarrow> process_all rest tr')"

text \<open>The record of one fed frame whose timestamp the worker returned.\<close>

definition make_frame_record :: "'t \<Rightarrow> frame_stats \<Rightarrow> 't FrameRecord" where
  "make_frame_record t s =
     \<lparr>frame_timestamp = t,
      frame_processing_time = stats_processing_time s,
      frame_num_features = stats_num_features s,
      frame_num_matches = stats_num_matches s,
      frame_tracking_state = stats_tracking_state s,
      frame_estimated_pose = map_option make_relative_pose (stats_pose s)\<rparr>"

text \<open>
  The fed frames in feed order, keeping those whose timestamp is a key of the payload.
  The payload is the worker's mapping in the order the worker returned it.
\<close>

fun collect_records :: "('t \<times> 'f) list \<Rightarrow> ('t \<times> frame_stats) list \<Rightarrow> 't FrameRecord list" where
  "collect_records [] payload = []"
| "collect_records ((t, frame) # rest) payload =
     (case map_of payload t of
        None \<Rightarrow> collect_records rest payload
      | Some s \<Rightarrow> make_frame_record t s # collect_records rest payload)"

text \<open>The returned timestamps with no fed frame: logged as warnings, their records ignored.\<close>

definition unmatched_timestamps :: "('t \<times> 'f) list \<Rightarrow> ('t \<times> frame_stats) list \<Rightarrow> 't list" where
  "unmatched_timestamps frames payload = filter (\<lambda>t. t \<notin> fst ` set frames) (map fst payload)"

text \<open>The fed timestamps that are no key of the payload, in feed order.\<close>

definition unreturned_timestamps :: "('t \<times> 'f) list \<Rightarrow> ('t \<times> frame_stats) list \<Rightarrow> 't list" where
  "unreturned_timestamps frames payload = filter (\<lambda>t. t \<notin> fst ` set payload) (map fst frames)"

text \<open>
  \<open>finish()\<close>: a usage error unless the trial is running; a termination error, with the
  trial failed, when the worker's payload does not arrive; otherwise the finished trial
  result, successful exactly when it holds at least one record.
\<close>

definition finish ::
  "('t \<times> frame_stats) list option \<Rightarrow> ('t, 'f) trial \<Rightarrow> ('t, 'f) trial \<times> (py_error + 't trial_result)" where
  "finish reply tr =
     (if state tr \<noteq> RUNNING then (tr, Inl RuntimeError)
      else case reply of
        None \<Rightarrow> (tr\<lparr>state := FAILED\<rparr>, Inl RuntimeError)
      | Some payload \<Rightarrow>
          (let frame_records = collect_records (fed tr) payload
           in (tr\<lparr>state := FINISHED\<rparr>,
               Inr \<lparr>success = (length frame_records > 0),
                    results = frame_records,
                    warnings = unmatched_timestamps (fed tr) payload,
                    missing_frames = unreturned_timestamps (fed tr) payload\<rparr>)))"

section \<open>Pose error (frame\_error\_result.py)\<close>

text \<open>
  Floats are idealised as reals and \<open>np.nan\<close> is \<open>None\<close>. The fields of \<open>PoseError\<close> are
  \<open>x, y, z, length, direction, rot\<close>; they carry the prefix \<open>err_\<close> here, since a record
  field is a constant of the theory.
\<close>

record PoseError =
  err_x :: real
  err_y :: real
  err_z :: real
  err_length :: real
  err_direction :: "real option"
  err_rot :: real

fun vec_sub :: "vec3 \<Rightarrow> vec3 \<Rightarrow> vec3" where
  "vec_sub (a0, a1, a2) (b0, b1, b2) = (a0 - b0, a1 - b1, a2 - b2)"

fun vec_div :: "vec3 \<Rightarrow> real \<Rightarrow> vec3" where
  "vec_div (a0, a1, a2) c = (a0 / c, a1 / c, a2 / c)"

text \<open>\<open>np.dot\<close> and \<open>np.linalg.norm\<close> on vectors of three coordinates.\<close>

fun np_dot :: "vec3 \<Rightarrow> vec3 \<Rightarrow> real" where
  "np_dot (a0, a1, a2) (b0, b1, b2) = a0 * b0 + a1 * b1 + a2 * b2"

fun np_linalg_norm :: "vec3 \<Rightarrow> real" where
  "np_linalg_norm (a0, a1, a2) = sqrt (a0 * a0 + a1 * a1 + a2 * a2)"

text \<open>
  The rotation error is computed by \<open>arvet.util.transform.quat_diff\<close>, a function of
  another package, from the orientations of the two poses: the function that maps the two
  orientations to the rotation error is a parameter of the model (see \<open>pose_quat_diff\<close>
  below for the one of the spec).
\<close>

definition make_pose_error ::
  "('r \<Rightarrow> 'r \<Rightarrow> real) \<Rightarrow> 'r Transform \<Rightarrow> 'r Transform \<Rightarrow> PoseError" where
  "make_pose_error quat_diff estimated_pose reference_pose =
     (let trans_error = vec_sub (location estimated_pose) (location reference_pose);
          trans_error_length = np_linalg_norm trans_error;
          trans_error_direction =
            (if trans_error_length > 0 then
               (let reference_norm = np_linalg_norm (location reference_pose)
                in if reference_norm > 0 then
                     (let unit_reference = vec_div (location reference_pose) reference_norm;
                          dot_product = np_dot (vec_div trans_error trans_error_length) unit_reference
                      in Some (arccos (min 1 (max 0 dot_product))))
                   else None)
             else None);
          rot_error = quat_diff (rotation estimated_pose) (rotation reference_pose)
      in \<lparr>err_x = fst trans_error,
          err_y = fst (snd trans_error),
          err_z = snd (snd trans_error),
          err_length = trans_error_length,
          err_direction = trans_error_direction,
          err_rot = rot_error\<rparr>)"

text \<open>
  Modelled from the spec: \<open>arvet.util.transform.quat_diff\<close>, which is not part of the
  sources. Section 4.3: the minimal rotation angle between the two orientations, always
  defined and non-negative. Two non-zero quaternions represent the rotations of their
  normalised forms, and the minimal angle between these is twice the arccosine of the
  absolute value of the inner product of the normalised quaternions.
\<close>

fun quat_dot :: "quat \<Rightarrow> quat \<Rightarrow> real" where
  "quat_dot (a0, a1, a2, a3) (b0, b1, b2, b3) = a0 * b0 + a1 * b1 + a2 * b2 + a3 * b3"

definition quat_diff :: "quat \<Rightarrow> quat \<Rightarrow> real" where
  "quat_diff q1 q2 =
     2 * arccos (min 1 (\<bar>quat_dot q1 q2\<bar> / (sqrt (quat_dot q1 q1) * sqrt (quat_dot q2 q2))))"

text \<open>
  Modelled from the spec: the orientation of a pose (section 3: a pose is a rigid transform,
  a translation and an orientation), as \<open>arvet.util.transform.Transform\<close> holds it and
  \<open>rotation_quat(w_first=True)\<close> returns it. A quaternion is an orientation when it is not
  zero.
\<close>

typedef orientation = "{q :: quat. q \<noteq> (0, 0, 0, 0)}"
  morphisms rotation_quat Orientation
proof
  show "(1, 0, 0, 0) \<in> {q :: quat. q \<noteq> (0, 0, 0, 0)}" by simp
qed

text \<open>
  \<open>tf.quat_diff(estimated_pose.rotation_quat(w_first=True),
  reference_pose.rotation_quat(w_first=True))\<close> on poses that hold an orientation.
\<close>

definition pose_quat_diff :: "orientation \<Rightarrow> orientation \<Rightarrow> real" where
  "pose_quat_diff a b = quat_diff (rotation_quat a) (rotation_quat b)"

text \<open>The unit error vector and the unit reference-location vector of a pair of poses.\<close>

definition unit_error :: "'r Transform \<Rightarrow> 'r Transform \<Rightarrow> vec3" where
  "unit_error estimated_pose reference_pose =
     vec_div (vec_sub (location estimated_pose) (location reference_pose))
       (np_linalg_norm (vec_sub (location estimated_pose) (location reference_pose)))"

definition unit_reference_location :: "'r Transform \<Rightarrow> vec3" where
  "unit_reference_location reference_pose =
     vec_div (location reference_pose) (np_linalg_norm (location reference_pose))"

section \<open>Aggregates of a frame error result (frame\_error\_result.py)\<close>

text \<open>
  The aggregate functions of \<open>get_results\<close> are \<open>np.min\<close>, \<open>np.max\<close>, \<open>np.mean\<close>,
  \<open>np.median\<close> and \<open>np.std\<close>, over reals. The code calls them on non-empty data only.
\<close>

datatype np_func = Np_min | Np_max | Np_mean | Np_median | Np_std

definition np_mean :: "real list \<Rightarrow> real" where
  "np_mean xs = sum_list xs / real (length xs)"

definition np_median :: "real list \<Rightarrow> real" where
  "np_median xs =
     (let s = sort xs; n = length s
      in if odd n then s ! (n div 2) else (s ! (n div 2 - 1) + s ! (n div 2)) / 2)"

definition np_std :: "real list \<Rightarrow> real" where
  "np_std xs = sqrt (np_mean (map (\<lambda>x. (x - np_mean xs)\<^sup>2) xs))"

fun call_func :: "np_func \<Rightarrow> real list \<Rightarrow> real" where
  "call_func Np_min xs = Min (set xs)"
| "call_func Np_max xs = Max (set xs)"
| "call_func Np_mean xs = np_mean xs"
| "call_func Np_median xs = np_median xs"
| "call_func Np_std xs = np_std xs"

text \<open>
  A property value is either a value given by a linked object or a frame error, or an
  aggregate computed by \<open>get_results\<close> (\<open>None\<close> is \<open>np.nan\<close>).
\<close>

datatype 'p prop_value = Given 'p | Computed "real option"

type_synonym 'p properties = "(string, 'p prop_value) fmap"

text \<open>
  A \<open>FrameError\<close>, by what \<open>get_properties\<close> reads: the values of its column list, and
  its system and image properties.
\<close>

record 'p FrameError =
  error_columns :: "'p properties"
  system_properties :: "'p properties"
  image_properties :: "'p properties"

record 'p TrialErrors =
  frame_errors :: "'p FrameError list"
  frames_lost :: "int list"
  frames_found :: "int list"
  times_lost :: "real list"
  times_found :: "real list"
  distances_lost :: "real list"
  distances_found :: "real list"

record 'p FrameErrorResult =
  errors :: "'p TrialErrors list"
  image_source_properties :: "'p properties"
  metric_properties :: "'p properties"
  frame_columns :: "string list"

text \<open>The six attributes that \<open>get_results\<close> reads with \<open>getattr\<close>.\<close>

datatype series_attr =
  Frames_lost | Frames_found | Times_lost | Times_found | Distances_lost | Distances_found

fun getattr :: "'p TrialErrors \<Rightarrow> series_attr \<Rightarrow> real list" where
  "getattr te Frames_lost = map real_of_int (frames_lost te)"
| "getattr te Frames_found = map real_of_int (frames_found te)"
| "getattr te Times_lost = times_lost te"
| "getattr te Times_found = times_found te"
| "getattr te Distances_lost = distances_lost te"
| "getattr te Distances_found = distances_found te"

text \<open>
  \<open>FrameError.get_properties(columns, other_properties)\<close>, called by \<open>get_results\<close> with
  a set of columns: the merge of the other properties with the image, system and error
  properties that are among the columns, a later dict overriding an earlier one.
\<close>

definition get_properties :: "'p FrameError \<Rightarrow> string fset \<Rightarrow> 'p properties \<Rightarrow> 'p properties" where
  "get_properties fe columns other_properties =
     other_properties
       ++\<^sub>f fmfilter (\<lambda>c. c |\<in>| columns) (image_properties fe)
       ++\<^sub>f fmfilter (\<lambda>c. c |\<in>| columns) (system_properties fe)
       ++\<^sub>f fmfilter (\<lambda>c. c |\<in>| columns) (error_columns fe)"

text \<open>The names that \<open>get_columns\<close> builds from its own two lists.\<close>

definition aggregate_columns :: "string list" where
  "aggregate_columns =
     [func @ ''_'' @ val.
        func \<leftarrow> [''min'', ''max'', ''mean'', ''median'', ''std''],
        val \<leftarrow> [''frames_lost'', ''frames_found'', ''times_lost'', ''times_found'',
                ''distance_lost'', ''distance_found'']]"

definition get_columns :: "'p FrameErrorResult \<Rightarrow> string fset" where
  "get_columns self =
     fset_of_list aggregate_columns |\<union>| fmdom (image_source_properties self)
       |\<union>| fmdom (metric_properties self) |\<union>| fset_of_list (frame_columns self)"

text \<open>The two tables of \<open>get_results\<close>.\<close>

definition funcs :: "(string \<times> np_func) list" where
  "funcs = [(''min'', Np_min), (''max'', Np_max), (''mean'', Np_mean), (''median'', Np_median),
            (''std'', Np_std)]"

definition series_values :: "(string \<times> series_attr) list" where
  "series_values =
     [(''frames_lost'', Frames_lost), (''frames_found'', Frames_found),
      (''times_lost'', Times_lost), (''times_found'', Times_found),
      (''distance_lost'', Distances_lost), (''distance_found'', Distances_found)]"

definition columns_to_compute :: "string fset \<Rightarrow> (string \<times> np_func \<times> series_attr) list" where
  "columns_to_compute columns =
     [(func_name @ ''_'' @ col_name, func, data).
        (col_name, data) \<leftarrow> series_values,
        (func_name, func) \<leftarrow> funcs,
        func_name @ ''_'' @ col_name |\<in>| columns]"

text \<open>\<open>func(data) if len(data) > 0 else np.nan\<close>\<close>

definition aggregate_value :: "np_func \<Rightarrow> real list \<Rightarrow> real option" where
  "aggregate_value func data = (if length data > 0 then Some (call_func func data) else None)"

text \<open>The inner loop: one assignment to \<open>other_properties\<close> for each column to compute.\<close>

fun compute_columns ::
  "(string \<times> np_func \<times> series_attr) list \<Rightarrow> 'p TrialErrors \<Rightarrow> 'p properties \<Rightarrow> 'p properties" where
  "compute_columns [] trial_errors other_properties = other_properties"
| "compute_columns ((column, func, attribute) # rest) trial_errors other_properties =
     compute_columns rest trial_errors
       (fmupd column (Computed (aggregate_value func (getattr trial_errors attribute)))
          other_properties)"

text \<open>
  The outer loop: \<open>other_properties\<close> is carried from one trial to the next, and the rows
  of a trial are built after its aggregates.
\<close>

fun get_results_loop ::
  "(string \<times> np_func \<times> series_attr) list \<Rightarrow> string fset \<Rightarrow> 'p TrialErrors list \<Rightarrow>
   'p properties \<Rightarrow> 'p properties list" where
  "get_results_loop to_compute columns [] other_properties = []"
| "get_results_loop to_compute columns (trial_errors # rest) other_properties =
     (let other_properties' = compute_columns to_compute trial_errors other_properties
      in map (\<lambda>frame_error. get_properties frame_error columns other_properties')
           (frame_errors trial_errors)
         @ get_results_loop to_compute columns rest other_properties')"

definition get_results :: "'p FrameErrorResult \<Rightarrow> string list option \<Rightarrow> 'p properties list" where
  "get_results self columns_arg =
     (let columns = (case columns_arg of None \<Rightarrow> get_columns self | Some cs \<Rightarrow> fset_of_list cs);
          other_properties =
            fmfilter (\<lambda>column. column |\<in>| columns) (image_source_properties self)
              ++\<^sub>f fmfilter (\<lambda>column. column |\<in>| columns) (metric_properties self)
      in get_results_loop (columns_to_compute columns) columns (errors self) other_properties)"

text \<open>The requested names that are aggregate names.\<close>

definition requested_aggregates :: "string fset \<Rightarrow> string set" where
  "requested_aggregates columns = {name \<in> set aggregate_columns. name |\<in>| columns}"

text \<open>
  The vocabulary of the result table. The column of a name is what the rows of
  \<open>get_results\<close> hold for it, row by row. The rows stand for the frame errors of the
  trials, in order: \<open>trial_frames\<close> pairs each of them with its trial. The value a frame
  error has for a name by itself is its error column, else its system property, else its
  image property.
\<close>

definition result_column :: "'p FrameErrorResult \<Rightarrow> string list \<Rightarrow> string \<Rightarrow> 'p prop_value option list" where
  "result_column self cs name = map (\<lambda>row. fmlookup row name) (get_results self (Some cs))"

definition trial_frames :: "'p FrameErrorResult \<Rightarrow> ('p TrialErrors \<times> 'p FrameError) list" where
  "trial_frames self = concat (map (\<lambda>te. map (Pair te) (frame_errors te)) (errors self))"

definition frame_value :: "'p FrameError \<Rightarrow> string \<Rightarrow> 'p prop_value option" where
  "frame_value fe name =
     (case fmlookup (error_columns fe) name of
        Some v \<Rightarrow> Some v
      | None \<Rightarrow>
          (case fmlookup (system_properties fe) name of
             Some v \<Rightarrow> Some v
           | None \<Rightarrow> fmlookup (image_properties fe) name))"

text \<open>
  A small result: a trial with two frame errors and non-empty series, and a trial with one
  frame error and empty series.
\<close>

definition example_frame_error :: "string FrameError" where
  "example_frame_error = \<lparr>error_columns = fmempty, system_properties = fmempty, image_properties = fmempty\<rparr>"

definition example_trial_1 :: "string TrialErrors" where
  "example_trial_1 =
     \<lparr>frame_errors = [example_frame_error, example_frame_error],
      frames_lost = [3, 1, 2], frames_found = [4],
      times_lost = [1, 3], times_found = [1, 3, 2],
      distances_lost = [2, 2], distances_found = []\<rparr>"

definition example_trial_2 :: "string TrialErrors" where
  "example_trial_2 =
     \<lparr>frame_errors = [example_frame_error],
      frames_lost = [], frames_found = [], times_lost = [], times_found = [],
      distances_lost = [], distances_found = []\<rparr>"

definition example_result :: "string FrameErrorResult" where
  "example_result =
     \<lparr>errors = [example_trial_1, example_trial_2], image_source_properties = fmempty,
      metric_properties = fmempty, frame_columns = []\<rparr>"

definition example_columns :: "string list" where
  "example_columns =
     [''min_frames_lost'', ''mean_times_lost'', ''median_times_found'', ''std_distance_lost'',
      ''max_frames_found'']"

section \<open>Finding and reading the files of a TUM dataset (tum\_loader.py)\<close>

text \<open>
  The file system is what the code asks of it: \<open>os.path.isfile\<close>, \<open>os.path.isdir\<close> and
  \<open>os.scandir\<close>, whose entries are triples of the entry's name, its path and whether it is
  a directory, and which may raise.
\<close>

record filesystem =
  isfile :: "string \<Rightarrow> bool"
  isdir :: "string \<Rightarrow> bool"
  scandir :: "string \<Rightarrow> py_error + (string \<times> string \<times> bool) list"

text \<open>\<open>os.path.join\<close> of a directory and a relative name.\<close>

definition path_join :: "string \<Rightarrow> string \<Rightarrow> string" where
  "path_join a b = (if a = [] \<or> last a = CHR ''/'' then a @ b else a @ ''/'' @ b)"

definition excluded_folders :: "string set" where
  "excluded_folders = {''depth'', ''rgb'', ''__MACOSX''}"

text \<open>The entries that the loop adds to \<open>to_search\<close>.\<close>

definition subdirectories :: "(string \<times> string \<times> bool) list \<Rightarrow> string set" where
  "subdirectories entries =
     set (map (\<lambda>(name, path, is_dir). path)
            (filter (\<lambda>(name, path, is_dir). is_dir \<and> name \<notin> excluded_folders) entries))"

text \<open>
  The search loop of \<open>find_files\<close>. \<open>to_search.pop()\<close> takes an arbitrary element of the
  set, and the walk need not end on a file system with cyclic links: the loop is a relation
  between the set to search and the outcomes it can have. The tuple returned is
  \<open>(candidate_root, rgb_path, depth_path, trajectory_path)\<close>.
\<close>

inductive find_files_loop ::
  "filesystem \<Rightarrow> string set \<Rightarrow> py_error + (string \<times> string \<times> string \<times> string) \<Rightarrow> bool" where
  not_found:
    "find_files_loop fs {} (Inl FileNotFoundError)"
| found:
    "candidate_root \<in> to_search \<Longrightarrow>
     rgb_path = path_join candidate_root ''rgb.txt'' \<Longrightarrow>
     trajectory_path = path_join candidate_root ''groundtruth.txt'' \<Longrightarrow>
     depth_path = path_join candidate_root ''depth.txt'' \<Longrightarrow>
     isfile fs rgb_path \<and> isfile fs trajectory_path \<and> isfile fs depth_path \<Longrightarrow>
     find_files_loop fs to_search (Inr (candidate_root, rgb_path, depth_path, trajectory_path))"
| scan_error:
    "candidate_root \<in> to_search \<Longrightarrow>
     rgb_path = path_join candidate_root ''rgb.txt'' \<Longrightarrow>
     trajectory_path = path_join candidate_root ''groundtruth.txt'' \<Longrightarrow>
     depth_path = path_join candidate_root ''depth.txt'' \<Longrightarrow>
     \<not> (isfile fs rgb_path \<and> isfile fs trajectory_path \<and> isfile fs depth_path) \<Longrightarrow>
     scandir fs candidate_root = Inl e \<Longrightarrow>
     find_files_loop fs to_search (Inl e)"
| descend:
    "candidate_root \<in> to_search \<Longrightarrow>
     rgb_path = path_join candidate_root ''rgb.txt'' \<Longrightarrow>
     trajectory_path = path_join candidate_root ''groundtruth.txt'' \<Longrightarrow>
     depth_path = path_join candidate_root ''depth.txt'' \<Longrightarrow>
     \<not> (isfile fs rgb_path \<and> isfile fs trajectory_path \<and> isfile fs depth_path) \<Longrightarrow>
     scandir fs candidate_root = Inr entries \<Longrightarrow>
     find_files_loop fs ((to_search - {candidate_root}) \<union> subdirectories entries) r \<Longrightarrow>
     find_files_loop fs to_search r"

code_pred find_files_loop .

definition find_files ::
  "filesystem \<Rightarrow> string \<Rightarrow> py_error + (string \<times> string \<times> string \<times> string) \<Rightarrow> bool" where
  "find_files fs base_root r = find_files_loop fs {base_root} r"

text \<open>
  Steps 1 and 2 of \<open>import_dataset\<close>: the check of the root folder, the call of
  \<open>find_files\<close>, whose tuple is unpacked as
  \<open>(root_folder, rgb_path, trajectory_path, depth_path)\<close>, and the three reads. The two
  parsers \<open>read_image_filenames\<close> and \<open>read_trajectory\<close> are parameters: the model keeps
  which path each of them is given. The outcome is the root found and the three maps
  \<open>(image_files, trajectory, depth_files)\<close> that step 3 associates.
\<close>

inductive import_dataset_metadata ::
  "filesystem \<Rightarrow> (string \<Rightarrow> 'i) \<Rightarrow> (string \<Rightarrow> 't) \<Rightarrow> string \<Rightarrow>
   py_error + (string \<times> 'i \<times> 't \<times> 'i) \<Rightarrow> bool" where
  not_a_directory:
    "\<not> isdir fs root_folder \<Longrightarrow>
     import_dataset_metadata fs read_image_filenames read_trajectory root_folder
       (Inl NotADirectoryError)"
| find_failed:
    "isdir fs root_folder \<Longrightarrow>
     find_files fs root_folder (Inl e) \<Longrightarrow>
     import_dataset_metadata fs read_image_filenames read_trajectory root_folder (Inl e)"
| read_metadata:
    "isdir fs root_folder \<Longrightarrow>
     find_files fs root_folder (Inr (root_folder', rgb_path, trajectory_path, depth_path)) \<Longrightarrow>
     image_files = read_image_filenames rgb_path \<Longrightarrow>
     trajectory = read_trajectory trajectory_path \<Longrightarrow>
     depth_files = read_image_filenames depth_path \<Longrightarrow>
     import_dataset_metadata fs read_image_filenames read_trajectory root_folder
       (Inr (root_folder', image_files, trajectory, depth_files))"

code_pred import_dataset_metadata .

text \<open>
  A small file system: the folder \<open>data\<close> holds the folders \<open>rgb\<close> and \<open>seq\<close>, and
  \<open>data/seq\<close> holds the three metadata files.
\<close>

definition example_fs :: filesystem where
  "example_fs =
     \<lparr>isfile = (\<lambda>p. p \<in> {''data/seq/rgb.txt'', ''data/seq/depth.txt'', ''data/seq/groundtruth.txt''}),
      isdir = (\<lambda>p. p \<in> {''data'', ''data/seq'', ''data/rgb''}),
      scandir = (\<lambda>p. if p = ''data''
                      then Inr [(''rgb'', ''data/rgb'', True), (''seq'', ''data/seq'', True)]
                      else Inr [])\<rparr>"

section \<open>Lemmas on the association\<close>

lemma getitem_Inr_iff: "getitem m k = Inr v \<longleftrightarrow> fmlookup m k = Some v"
  by (simp add: getitem_def split: option.splits)

lemma getitem_dom: "k |\<in>| fmdom m \<Longrightarrow> \<exists>v. getitem m k = Inr v \<and> fmlookup m k = Some v"
  by (auto simp: getitem_def fmlookup_dom_iff)

lemma lookup_all_total:
  "\<forall>m \<in> set ms. k |\<in>| fmdom m \<Longrightarrow>
   \<exists>vs. lookup_all k ms = Inr vs \<and> map Some vs = map (\<lambda>m. fmlookup m k) ms"
proof (induction ms)
  case Nil
  show ?case by simp
next
  case (Cons m ms)
  from Cons.prems obtain v where v: "getitem m k = Inr v" "fmlookup m k = Some v"
    using getitem_dom [of k m] by auto
  from Cons obtain vs where vs: "lookup_all k ms = Inr vs" "map Some vs = map (\<lambda>m. fmlookup m k) ms"
    by auto
  show ?case using v vs by simp
qed

lemma make_row_total:
  assumes "k |\<in>| fmdom root_map" and "\<forall>m \<in> set ms. k |\<in>| fmdom m"
  shows "\<exists>vs. make_row root_map ms k = Inr (k, vs) \<and>
              map Some vs = map (\<lambda>m. fmlookup m k) (root_map # ms)"
proof -
  from assms(1) obtain v where v: "getitem root_map k = Inr v" "fmlookup root_map k = Some v"
    using getitem_dom [of k root_map] by auto
  from assms(2) obtain vs where vs: "lookup_all k ms = Inr vs" "map Some vs = map (\<lambda>m. fmlookup m k) ms"
    using lookup_all_total [of ms k] by auto
  show ?thesis using v vs by (simp add: make_row_def)
qed

lemma make_rows_total:
  assumes "\<forall>k \<in> set ks. k |\<in>| fmdom root_map \<and> (\<forall>m \<in> set ms. k |\<in>| fmdom m)"
  shows "\<exists>rows. make_rows root_map ms ks = Inr rows \<and> map fst rows = ks \<and>
           (\<forall>(k, vs) \<in> set rows. map Some vs = map (\<lambda>m. fmlookup m k) (root_map # ms))"
  using assms
proof (induction ks)
  case Nil
  show ?case by simp
next
  case (Cons k ks)
  from Cons.prems obtain vs where vs: "make_row root_map ms k = Inr (k, vs)"
      "map Some vs = map (\<lambda>m. fmlookup m k) (root_map # ms)"
    using make_row_total [of k root_map ms] by auto
  from Cons obtain rows where rows: "make_rows root_map ms ks = Inr rows" "map fst rows = ks"
      "\<forall>(k, vs) \<in> set rows. map Some vs = map (\<lambda>m. fmlookup m k) (root_map # ms)"
    by auto
  show ?case using vs rows by simp
qed

lemma sorted_list_of_fset_sorted: "sorted (sorted_list_of_fset S)"
  by (simp add: sorted_list_of_fset.rep_eq)

lemma sorted_list_of_fset_distinct: "distinct (sorted_list_of_fset S)"
  by (simp add: sorted_list_of_fset.rep_eq)

lemma sorted_list_of_fset_length: "length (sorted_list_of_fset S) = fcard S"
  by (simp add: sorted_list_of_fset.rep_eq fcard.rep_eq)

lemma same_keys_branch:
  assumes "\<forall>other_map \<in> set args. fmdom other_map = fmdom root_map"
  shows "associate_data assoc root_map args =
         make_rows root_map args (sorted_list_of_fset (fmdom root_map))"
  using assms by (cases args) (auto simp: associate_data_def list_all_iff)

lemma rekey_total:
  assumes "\<forall>(a, b) \<in> set matches. b |\<in>| fmdom other_map"
  shows "\<exists>rm. rekey other_map matches acc = Inr rm \<and>
           fmdom rm = fmdom acc |\<union>| fset_of_list (map fst matches)"
  using assms
proof (induction matches arbitrary: acc)
  case Nil
  show ?case by simp
next
  case (Cons p matches)
  obtain a b where p: "p = (a, b)" by (cases p)
  from Cons.prems p obtain v where v: "getitem other_map b = Inr v"
    using getitem_dom [of b other_map] by auto
  from Cons.prems have "\<forall>(a, b) \<in> set matches. b |\<in>| fmdom other_map" by simp
  from Cons.IH [OF this, of "fmupd a v acc"] obtain rm where
    rm: "rekey other_map matches (fmupd a v acc) = Inr rm"
        "fmdom rm = fmdom (fmupd a v acc) |\<union>| fset_of_list (map fst matches)"
    by blast
  show ?case using p v rm by auto
qed

lemma rekey_all_total:
  assumes "\<forall>other \<in> set args. \<forall>(a, b) \<in> set (assoc root_map other). b |\<in>| fmdom other"
    and "\<forall>m \<in> set rms. rk |\<subseteq>| fmdom m"
  shows "\<exists>rk' rms'. rekey_all assoc root_map args rk rms = Inr (rk', rms') \<and>
           rk' = ffilter (\<lambda>k. \<forall>other \<in> set args. k \<in> fst ` set (assoc root_map other)) rk \<and>
           (\<forall>m \<in> set rms'. rk' |\<subseteq>| fmdom m)"
  using assms
proof (induction args arbitrary: rk rms)
  case Nil
  then show ?case by auto
next
  case (Cons other args)
  from Cons.prems(1) have "\<forall>(a, b) \<in> set (assoc root_map other). b |\<in>| fmdom other" by simp
  from rekey_total [OF this, of fmempty] obtain rm where
    rm: "rekey other (assoc root_map other) fmempty = Inr rm"
        "fmdom rm = fset_of_list (map fst (assoc root_map other))"
    by auto
  let ?rk = "rk |\<inter>| fmdom rm"
  have inv: "\<forall>m \<in> set (rms @ [rm]). ?rk |\<subseteq>| fmdom m"
    using Cons.prems(2) by auto
  from Cons.prems(1) have wf: "\<forall>other \<in> set args. \<forall>(a, b) \<in> set (assoc root_map other). b |\<in>| fmdom other"
    by simp
  from Cons.IH [OF wf inv] obtain rk' rms' where
    r: "rekey_all assoc root_map args ?rk (rms @ [rm]) = Inr (rk', rms')"
       "rk' = ffilter (\<lambda>k. \<forall>other \<in> set args. k \<in> fst ` set (assoc root_map other)) ?rk"
       "\<forall>m \<in> set rms'. rk' |\<subseteq>| fmdom m"
    by blast
  have "rk' = ffilter (\<lambda>k. \<forall>other \<in> set (other # args). k \<in> fst ` set (assoc root_map other)) rk"
    unfolding r(2) using rm(2) by (auto simp: fset_of_list.rep_eq)
  then show ?case using rm(1) r(1) r(3) by simp
qed

text \<open>The matcher of the spec pairs keys that the two series have.\<close>

lemma consume_keys:
  "(a, b) \<in> set (consume candidates first_keys second_keys) \<Longrightarrow>
   a \<in> set first_keys \<and> b \<in> set second_keys"
proof (induction candidates first_keys second_keys rule: consume.induct)
  case (1 first_keys second_keys)
  then show ?case by simp
next
  case (2 d a' b' rest first_keys second_keys)
  show ?case
  proof (cases "a' \<in> set first_keys \<and> b' \<in> set second_keys")
    case True
    with "2.prems" have "(a, b) = (a', b') \<or>
        (a, b) \<in> set (consume rest (removeAll a' first_keys) (removeAll b' second_keys))"
      by simp
    then show ?thesis using True "2.IH"(1) by auto
  next
    case False
    with "2.prems" have "(a, b) \<in> set (consume rest first_keys second_keys)" by auto
    then show ?thesis using False "2.IH"(2) by blast
  qed
qed

lemma associate_keys_present:
  "(a, b) \<in> set (associate offset max_difference first_map second_map) \<Longrightarrow>
   a |\<in>| fmdom first_map \<and> b |\<in>| fmdom second_map"
  unfolding associate_def Let_def by (drule consume_keys) simp

text \<open>
  Claim C1. For a non-empty list of secondary series whose key sets are not all the
  reference's, and a matcher that pairs reference keys with keys the secondary series has,
  \<open>associate_data\<close> returns one row for each reference key that found a match in every
  secondary series, in ascending order and without repetition, and the empty list when some
  secondary series has no match at all.
\<close>

theorem associate_data_general:
  assumes "args \<noteq> []"
    and "\<not> (\<forall>other \<in> set args. fmdom other = fmdom root_map)"
    and "\<forall>other \<in> set args. \<forall>(a, b) \<in> set (assoc root_map other). b |\<in>| fmdom other"
  shows "\<exists>rows. associate_data assoc root_map args = Inr rows \<and>
           map fst rows = sorted_list_of_fset (matched_keys assoc root_map args) \<and>
           distinct (map fst rows) \<and>
           ((\<exists>other \<in> set args. assoc root_map other = []) \<longrightarrow> rows = [])"
proof -
  have "\<forall>m \<in> set ([] :: ('a, 'b) fmap list). fmdom root_map |\<subseteq>| fmdom m" by simp
  from rekey_all_total [where assoc = assoc and root_map = root_map and args = args, OF assms(3) this]
  obtain rk' rms' where
    r: "rekey_all assoc root_map args (fmdom root_map) [] = Inr (rk', rms')"
       "rk' = matched_keys assoc root_map args"
       "\<forall>m \<in> set rms'. rk' |\<subseteq>| fmdom m"
    unfolding matched_keys_def by auto
  have sub: "rk' |\<subseteq>| fmdom root_map" unfolding r(2) matched_keys_def by auto
  have "\<forall>k \<in> set (sorted_list_of_fset rk'). k |\<in>| fmdom root_map \<and> (\<forall>m \<in> set rms'. k |\<in>| fmdom m)"
    using sub r(3) by auto
  from make_rows_total [OF this] obtain rows where
    rows: "make_rows root_map rms' (sorted_list_of_fset rk') = Inr rows"
          "map fst rows = sorted_list_of_fset rk'"
    by blast
  have res: "associate_data assoc root_map args = Inr rows"
    using assms(1,2) r(1) rows(1) by (auto simp: associate_data_def list_all_iff Let_def)
  have dist: "distinct (map fst rows)"
    using rows(2) sorted_list_of_fset_distinct [of rk'] by simp
  have empty: "rows = []" if "\<exists>other \<in> set args. assoc root_map other = []"
  proof -
    from that obtain other where o: "other \<in> set args" "assoc root_map other = []" by blast
    have "k |\<notin>| rk'" for k
    proof
      assume "k |\<in>| rk'"
      then have "k \<in> fst ` set (assoc root_map other)"
        unfolding r(2) matched_keys_def using o(1) by simp
      then show False using o(2) by simp
    qed
    then have "rk' = {||}" by auto
    then have "map fst rows = []" using rows(2) by (simp add: sorted_list_of_fset.rep_eq)
    then show ?thesis by simp
  qed
  show ?thesis using res rows(2) r(2) dist empty by auto
qed

theorem associate_data_general_witness:
  "[fmap_of_list [(11, ''x''), (29, ''y'')], fmap_of_list [(8, ''p''), (21, ''q''), (30, ''r'')]] \<noteq> []
   \<and> \<not> (\<forall>other \<in> set [fmap_of_list [(11, ''x''), (29, ''y'')], fmap_of_list [(8, ''p''), (21, ''q''), (30, ''r'')]].
          fmdom other = fmdom (fmap_of_list [(10::int, ''a''), (20, ''b''), (30, ''c'')]))
   \<and> associate_data (associate 0 3) (fmap_of_list [(10, ''a''), (20, ''b''), (30, ''c'')])
         [fmap_of_list [(11, ''x''), (29, ''y'')], fmap_of_list [(8, ''p''), (21, ''q''), (30, ''r'')]]
       = Inr [(10, [''a'', ''x'', ''p'']), (30, [''c'', ''y'', ''r''])]
   \<and> sorted_list_of_fset (matched_keys (associate 0 3) (fmap_of_list [(10, ''a''), (20, ''b''), (30, ''c'')])
         [fmap_of_list [(11, ''x''), (29, ''y'')], fmap_of_list [(8, ''p''), (21, ''q''), (30, ''r'')]]) = [10, 30]
   \<and> associate 0 3 (fmap_of_list [(10, ''a''), (20, ''b''), (30, ''c'')]) (fmap_of_list [(100, ''p'')]) = []
   \<and> associate_data (associate 0 3) (fmap_of_list [(10, ''a''), (20, ''b''), (30, ''c'')])
         [fmap_of_list [(11, ''x''), (29, ''y'')], fmap_of_list [(100, ''p'')]] = Inr []"
proof -
  let ?R = "fmap_of_list [(10::int, ''a''), (20, ''b''), (30, ''c'')]"
  let ?A = "[fmap_of_list [(11::int, ''x''), (29, ''y'')], fmap_of_list [(8, ''p''), (21, ''q''), (30, ''r'')]]"
  let ?B = "[fmap_of_list [(11::int, ''x''), (29, ''y'')], fmap_of_list [(100, ''p'')]]"
  have h1: "?A \<noteq> []" by simp
  have h2: "\<not> (\<forall>other \<in> set ?A. fmdom other = fmdom ?R)" by code_simp
  have h3: "\<forall>other \<in> set ?A. \<forall>(a, b) \<in> set (associate 0 3 ?R other). b |\<in>| fmdom other"
    using associate_keys_present by blast
  have v: "associate_data (associate 0 3) ?R ?A = Inr [(10, [''a'', ''x'', ''p'']), (30, [''c'', ''y'', ''r''])]"
    by code_simp
  have g1: "?B \<noteq> []" by simp
  have g2: "\<not> (\<forall>other \<in> set ?B. fmdom other = fmdom ?R)" by code_simp
  have g3: "\<forall>other \<in> set ?B. \<forall>(a, b) \<in> set (associate 0 3 ?R other). b |\<in>| fmdom other"
    using associate_keys_present by blast
  have g4: "associate 0 3 ?R (fmap_of_list [(100, ''p'')]) = []" by code_simp
  have a: "sorted_list_of_fset (matched_keys (associate 0 3) ?R ?A) = [10, 30]"
    using associate_data_general [where assoc = "associate 0 3" and root_map = ?R and args = ?A, OF h1 h2 h3] v
    by auto
  have b: "associate_data (associate 0 3) ?R ?B = Inr []"
    using associate_data_general [where assoc = "associate 0 3" and root_map = ?R and args = ?B, OF g1 g2 g3] g4
    by auto
  show ?thesis using h1 h2 v a g4 b by blast
qed

text \<open>
  Claim C7. When every series has exactly the key set of the reference, \<open>associate_data\<close>
  returns (without raising) one row per key, \<open>|keys|\<close> rows in all, in ascending key order;
  the row of key \<open>k\<close> holds \<open>reference[k], other_1[k], ..., other_N[k]\<close> in argument order,
  read by direct lookup. The matcher is not consulted: the result is the same for every
  matcher.
\<close>

theorem associate_data_same_keys:
  assumes "\<forall>other_map \<in> set args. fmdom other_map = fmdom root_map"
  shows "\<exists>rows. associate_data assoc root_map args = Inr rows
     \<and> associate_data assoc' root_map args = Inr rows
     \<and> length rows = fcard (fmdom root_map)
     \<and> map fst rows = sorted_list_of_fset (fmdom root_map)
     \<and> sorted (map fst rows)
     \<and> (\<forall>(k, vs) \<in> set rows. map Some vs = map (\<lambda>m. fmlookup m k) (root_map # args))"
proof -
  let ?ks = "sorted_list_of_fset (fmdom root_map)"
  have "\<forall>k \<in> set ?ks. k |\<in>| fmdom root_map \<and> (\<forall>m \<in> set args. k |\<in>| fmdom m)"
    using assms by simp
  then obtain rows where rows: "make_rows root_map args ?ks = Inr rows" "map fst rows = ?ks"
      "\<forall>(k, vs) \<in> set rows. map Some vs = map (\<lambda>m. fmlookup m k) (root_map # args)"
    using make_rows_total [of ?ks root_map args] by blast
  have len: "length rows = fcard (fmdom root_map)"
    using rows(2) sorted_list_of_fset_length [of "fmdom root_map"]
    by (metis length_map)
  show ?thesis
    using rows len same_keys_branch [OF assms, of assoc] same_keys_branch [OF assms, of assoc']
      sorted_list_of_fset_sorted [of "fmdom root_map"]
    by auto
qed


theorem associate_data_same_keys_witness:
  "list_all (\<lambda>other_map. fmdom other_map = fmdom (fmap_of_list [(10::int, ''a''), (20, ''b''), (30, ''c'')]))
     [fmap_of_list [(30, ''z''), (10, ''x''), (20, ''y'')]]
   \<and> associate_data (associate 0 3) (fmap_of_list [(10::int, ''a''), (20, ''b''), (30, ''c'')])
        [fmap_of_list [(30, ''z''), (10, ''x''), (20, ''y'')]]
       = Inr [(10, [''a'', ''x'']), (20, [''b'', ''y'']), (30, [''c'', ''z''])]
   \<and> fcard (fmdom (fmap_of_list [(10::int, ''a''), (20, ''b''), (30, ''c'')])) = 3"
proof -
  let ?R = "fmap_of_list [(10::int, ''a''), (20, ''b''), (30, ''c'')]"
  let ?A = "[fmap_of_list [(30::int, ''z''), (10, ''x''), (20, ''y'')]]"
  have h: "\<forall>other_map \<in> set ?A. fmdom other_map = fmdom ?R" by code_simp
  have v: "associate_data (associate 0 3) ?R ?A = Inr [(10, [''a'', ''x'']), (20, [''b'', ''y'']), (30, [''c'', ''z''])]"
    by code_simp
  from associate_data_same_keys [where assoc = "associate 0 3" and assoc' = "associate 0 3" and root_map = ?R and args = ?A, OF h] v
  have "fcard (fmdom ?R) = 3" by auto
  moreover have "list_all (\<lambda>other_map. fmdom other_map = fmdom ?R) ?A"
    using h by (simp only: list_all_iff)
  ultimately show ?thesis using v by blast
qed
section \<open>The axis remap and the trial protocol\<close>

text \<open>
  Claim C4. A pose whose native-frame translation is \<open>(tx, ty, tz)\<close> is converted to a
  pose whose location is \<open>(tz, -tx, -ty)\<close>, by the loaders' \<open>make_camera_pose\<close> and by the
  harness-side conversion of a worker pose matrix; a matrix with translation
  \<open>(10, -22.4, 13.2)\<close> gives the location \<open>(13.2, -10, 22.4)\<close>.
\<close>

theorem axis_remap_location:
  "location (make_camera_pose tx ty tz qw qx qy qz) = (tz, - tx, - ty)
   \<and> (matrix_translation m = (tx, ty, tz) \<longrightarrow> location (make_relative_pose m) = (tz, - tx, - ty))"
proof -
  obtain r00 r01 r02 t0 r10 r11 r12 t1 r20 r21 r22 t2 where
    m: "m = ((r00, r01, r02, t0), (r10, r11, r12, t1), (r20, r21, r22, t2))"
    by (metis prod_cases4 prod_cases3)
  show ?thesis by (simp add: make_camera_pose_def m)
qed

theorem axis_remap_location_witness:
  "matrix_translation ((1, 0, 0, 10), (0, 1, 0, - 22.4), (0, 0, 1, 13.2)) = (10, - 22.4, 13.2)
   \<and> location (make_relative_pose ((1, 0, 0, 10), (0, 1, 0, - 22.4), (0, 0, 1, 13.2))) = (13.2, - 10, 22.4)
   \<and> location (make_camera_pose 10 (- 22.4) 13.2 1 0 0 0) = (13.2, - 10, 22.4)"
proof -
  have h: "matrix_translation ((1, 0, 0, 10), (0, 1, 0, - 22.4), (0, 0, 1, 13.2)) = (10, - 22.4, 13.2)"
    by simp
  from axis_remap_location [of 10 "- 22.4" "13.2" 1 0 0 0 "((1, 0, 0, 10), (0, 1, 0, - 22.4), (0, 0, 1, 13.2))"] h
  show ?thesis by simp
qed

lemma collect_records_timestamps:
  "map frame_timestamp (collect_records frames payload) =
     filter (\<lambda>t. t \<in> fst ` set payload) (map fst frames)"
proof (induction frames)
  case Nil
  show ?case by simp
next
  case (Cons p frames)
  obtain t f where p: "p = (t, f)" by (cases p)
  show ?case
  proof (cases "map_of payload t")
    case None
    then have "t \<notin> fst ` set payload" by (simp add: map_of_eq_None_iff)
    then show ?thesis using Cons None p by simp
  next
    case (Some s)
    then have "t \<in> fst ` set payload" by (metis map_of_eq_None_iff option.distinct(1))
    then show ?thesis using Cons Some p by (simp add: make_frame_record_def)
  qed
qed

lemma collect_records_fields:
  "rec \<in> set (collect_records frames payload) \<Longrightarrow>
   \<exists>s. map_of payload (frame_timestamp rec) = Some s \<and> rec = make_frame_record (frame_timestamp rec) s"
proof (induction frames)
  case Nil
  then show ?case by simp
next
  case (Cons p frames)
  obtain t f where p: "p = (t, f)" by (cases p)
  show ?case
  proof (cases "map_of payload t")
    case None
    then show ?thesis using Cons p by simp
  next
    case (Some s)
    then show ?thesis using Cons p by (auto simp: make_frame_record_def)
  qed
qed

lemma finish_running:
  "state tr = RUNNING \<Longrightarrow>
   finish (Some payload) tr =
     (tr\<lparr>state := FINISHED\<rparr>,
      Inr \<lparr>success = (collect_records (fed tr) payload \<noteq> []),
           results = collect_records (fed tr) payload,
           warnings = unmatched_timestamps (fed tr) payload,
           missing_frames = unreturned_timestamps (fed tr) payload\<rparr>)"
  by (simp add: finish_def Let_def)

lemma process_running:
  "state tr = RUNNING \<Longrightarrow> process frame t tr = (tr\<lparr>fed := fed tr @ [(t, frame)]\<rparr>, Inr ())"
  by (simp add: process_def)

lemma process_all_running:
  "state tr = RUNNING \<Longrightarrow> process_all frames tr = (tr\<lparr>fed := fed tr @ frames\<rparr>, Inr ())"
proof (induction frames arbitrary: tr)
  case Nil
  show ?case by simp
next
  case (Cons p frames)
  obtain t frame where p: "p = (t, frame)" by (cases p)
  have "state (tr\<lparr>fed := fed tr @ [(t, frame)]\<rparr>) = RUNNING" using Cons.prems by simp
  from Cons.IH [OF this] show ?case
    using Cons.prems p by (simp add: process_running)
qed

lemma start_fresh:
  "state tr \<noteq> RUNNING \<Longrightarrow> start True True tr = (tr\<lparr>state := RUNNING, fed := []\<rparr>, Inr ())"
  by (simp add: start_def)

text \<open>
  Claim C2. A trial is started, the frames of a list are passed to \<open>process\<close> one by one
  with their timestamps, and the trial is finished with the payload the worker returned.
  No call fails, and the records of the result are, in the order the frames were fed, those
  of the fed timestamps that are keys of the payload, each carrying the processing time,
  feature count, match count and tracking state the payload has for its timestamp. A fed
  timestamp that is no key of the payload has no record; it is among the logged missing
  frames.
\<close>

theorem finish_records_fed_order:
  assumes "state tr \<noteq> RUNNING"
  shows "\<exists>tr1 tr2 tr3 res.
       start True True tr = (tr1, Inr ())
     \<and> process_all frames tr1 = (tr2, Inr ())
     \<and> finish (Some payload) tr2 = (tr3, Inr res) \<and> state tr3 = FINISHED
     \<and> map frame_timestamp (results res) = filter (\<lambda>t. t \<in> fst ` set payload) (map fst frames)
     \<and> (\<forall>rec \<in> set (results res). \<exists>s. map_of payload (frame_timestamp rec) = Some s
          \<and> frame_processing_time rec = stats_processing_time s
          \<and> frame_num_features rec = stats_num_features s
          \<and> frame_num_matches rec = stats_num_matches s
          \<and> frame_tracking_state rec = stats_tracking_state s)
     \<and> missing_frames res = filter (\<lambda>t. t \<notin> fst ` set payload) (map fst frames)"
proof -
  let ?tr1 = "tr\<lparr>state := RUNNING, fed := []\<rparr>"
  let ?tr2 = "?tr1\<lparr>fed := fed ?tr1 @ frames\<rparr>"
  let ?rs = "collect_records frames payload"
  have s1: "start True True tr = (?tr1, Inr ())" using assms by (rule start_fresh)
  have r1: "state ?tr1 = RUNNING" by simp
  have s2: "process_all frames ?tr1 = (?tr2, Inr ())" using r1 by (rule process_all_running)
  have r2: "state ?tr2 = RUNNING" and f2: "fed ?tr2 = frames" by simp_all
  have s3: "finish (Some payload) ?tr2 =
     (?tr2\<lparr>state := FINISHED\<rparr>,
      Inr \<lparr>success = (?rs \<noteq> []), results = ?rs,
           warnings = unmatched_timestamps frames payload,
           missing_frames = unreturned_timestamps frames payload\<rparr>)"
    using finish_running [OF r2, of payload] unfolding f2 .
  have fields: "\<exists>s. map_of payload (frame_timestamp rec) = Some s
          \<and> frame_processing_time rec = stats_processing_time s
          \<and> frame_num_features rec = stats_num_features s
          \<and> frame_num_matches rec = stats_num_matches s
          \<and> frame_tracking_state rec = stats_tracking_state s" if "rec \<in> set ?rs" for rec
  proof -
    from collect_records_fields [OF that] obtain s where
      s: "map_of payload (frame_timestamp rec) = Some s" "rec = make_frame_record (frame_timestamp rec) s"
      by blast
    have "frame_processing_time rec = stats_processing_time s" "frame_num_features rec = stats_num_features s"
      "frame_num_matches rec = stats_num_matches s" "frame_tracking_state rec = stats_tracking_state s"
      by (subst s(2), simp add: make_frame_record_def)+
    then show ?thesis using s(1) by blast
  qed
  show ?thesis
    apply (rule exI [of _ ?tr1], rule exI [of _ ?tr2])
    apply (rule exI [of _ "?tr2\<lparr>state := FINISHED\<rparr>"])
    apply (rule exI [of _ "\<lparr>success = (?rs \<noteq> []), results = ?rs,
           warnings = unmatched_timestamps frames payload,
           missing_frames = unreturned_timestamps frames payload\<rparr>"])
    using s1 s2 s3 collect_records_timestamps [of frames payload] fields
    by (simp add: unreturned_timestamps_def)
qed

text \<open>
  Claim C3. Finishing a running trial whose worker returned a payload returns a result (no
  error) that is successful exactly when it has at least one record. The returned
  timestamps without a fed frame are the ones logged as warnings and none of them has a
  record; when no returned timestamp was fed, the result is unsuccessful, has no record and
  warns about every returned timestamp.
\<close>

theorem finish_success_iff_records:
  assumes "state tr = RUNNING"
  shows "\<exists>tr' res. finish (Some payload) tr = (tr', Inr res)
     \<and> (success res \<longleftrightarrow> results res \<noteq> [])
     \<and> set (warnings res) = fst ` set payload - fst ` set (fed tr)
     \<and> (\<forall>t \<in> set (warnings res). t \<notin> frame_timestamp ` set (results res))
     \<and> ((\<forall>t \<in> fst ` set payload. t \<notin> fst ` set (fed tr)) \<longrightarrow>
           \<not> success res \<and> results res = [] \<and> warnings res = map fst payload)"
proof -
  let ?rs = "collect_records (fed tr) payload"
  let ?ws = "unmatched_timestamps (fed tr) payload"
  have ts: "frame_timestamp ` set ?rs = set (filter (\<lambda>t. t \<in> fst ` set payload) (map fst (fed tr)))"
    using collect_records_timestamps [of "fed tr" payload] by (metis set_map)
  have w: "set ?ws = fst ` set payload - fst ` set (fed tr)"
    by (auto simp: unmatched_timestamps_def)
  have excl: "\<forall>t \<in> set ?ws. t \<notin> frame_timestamp ` set ?rs"
    unfolding ts w by auto
  have none: "?rs = [] \<and> ?ws = map fst payload" if "\<forall>t \<in> fst ` set payload. t \<notin> fst ` set (fed tr)"
  proof -
    from that have "filter (\<lambda>t. t \<in> fst ` set payload) (map fst (fed tr)) = []"
      by (force simp: filter_empty_conv)
    then have "map frame_timestamp ?rs = []"
      using collect_records_timestamps [of "fed tr" payload] by simp
    moreover have "?ws = map fst payload"
      unfolding unmatched_timestamps_def using that by (auto simp: filter_id_conv)
    ultimately show ?thesis by simp
  qed
  show ?thesis
    using finish_running [OF assms, of payload] w excl none by simp
qed


theorem finish_records_fed_order_witness:
  "state \<lparr>state = NOT_STARTED, fed = ([] :: (int \<times> unit) list)\<rparr> \<noteq> RUNNING
   \<and> (\<exists>tr1 tr2 tr3 res.
        start True True \<lparr>state = NOT_STARTED, fed = ([] :: (int \<times> unit) list)\<rparr> = (tr1, Inr ())
        \<and> process_all (map (\<lambda>t. (t, ())) [0, 1, 2, 3, 4, 5, 6, 7, 8, 9]) tr1 = (tr2, Inr ())
        \<and> finish (Some (map (\<lambda>t. (t, \<lparr>stats_processing_time = 0.122 + 0.09 * real_of_int t,
                                      stats_num_features = 15 + t, stats_num_matches = 6 + t,
                                      stats_tracking_state = OK, stats_pose = None\<rparr>))
                       [9, 8, 7, 6, 4, 3, 2, 1, 0])) tr2 = (tr3, Inr res)
        \<and> map frame_timestamp (results res) = [0, 1, 2, 3, 4, 6, 7, 8, 9]
        \<and> missing_frames res = [5])"
proof -
  let ?tr = "\<lparr>state = NOT_STARTED, fed = ([] :: (int \<times> unit) list)\<rparr>"
  let ?frames = "map (\<lambda>t. (t, ())) [0::int, 1, 2, 3, 4, 5, 6, 7, 8, 9]"
  let ?payload = "map (\<lambda>t. (t, \<lparr>stats_processing_time = 0.122 + 0.09 * real_of_int t,
                                      stats_num_features = 15 + t, stats_num_matches = 6 + t,
                                      stats_tracking_state = OK, stats_pose = None\<rparr>))
                       [9::int, 8, 7, 6, 4, 3, 2, 1, 0]"
  have h: "state ?tr \<noteq> RUNNING" by simp
  have f: "filter (\<lambda>t. t \<in> fst ` set ?payload) (map fst ?frames) = [0, 1, 2, 3, 4, 6, 7, 8, 9]"
    by simp
  have g: "filter (\<lambda>t. t \<notin> fst ` set ?payload) (map fst ?frames) = [5]"
    by simp
  from finish_records_fed_order [OF h, of ?frames ?payload] obtain tr1 tr2 tr3 res where
    r: "start True True ?tr = (tr1, Inr ())"
       "process_all ?frames tr1 = (tr2, Inr ())"
       "finish (Some ?payload) tr2 = (tr3, Inr res)"
       "map frame_timestamp (results res) = filter (\<lambda>t. t \<in> fst ` set ?payload) (map fst ?frames)"
       "missing_frames res = filter (\<lambda>t. t \<notin> fst ` set ?payload) (map fst ?frames)"
    by blast
  from r(4) have e: "map frame_timestamp (results res) = [0, 1, 2, 3, 4, 6, 7, 8, 9]"
    unfolding f .
  from r(5) have m: "missing_frames res = [5]"
    unfolding g .
  show ?thesis
    by (intro conjI exI [of _ tr1] exI [of _ tr2] exI [of _ tr3] exI [of _ res])
      (rule h, rule r(1), rule r(2), rule r(3), rule e, rule m)
qed

theorem finish_success_iff_records_witness:
  "state \<lparr>state = RUNNING, fed = ([] :: (int \<times> unit) list)\<rparr> = RUNNING
   \<and> (\<exists>tr' res.
        finish (Some (map (\<lambda>t. (t, \<lparr>stats_processing_time = 0.122, stats_num_features = 15 + t,
                                      stats_num_matches = 6 + t, stats_tracking_state = OK,
                                      stats_pose = None\<rparr>)) [0::int, 1, 2]))
          \<lparr>state = RUNNING, fed = ([] :: (int \<times> unit) list)\<rparr> = (tr', Inr res)
        \<and> \<not> success res \<and> results res = [] \<and> warnings res = [0, 1, 2])"
proof -
  let ?tr = "\<lparr>state = RUNNING, fed = ([] :: (int \<times> unit) list)\<rparr>"
  let ?payload = "map (\<lambda>t. (t, \<lparr>stats_processing_time = 0.122, stats_num_features = 15 + t,
                                      stats_num_matches = 6 + t, stats_tracking_state = OK,
                                      stats_pose = None\<rparr>)) [0::int, 1, 2]"
  have h: "state ?tr = RUNNING" by simp
  have u: "\<forall>t \<in> fst ` set ?payload. t \<notin> fst ` set (fed ?tr)" by simp
  have m: "map fst ?payload = [0, 1, 2]" by simp
  from finish_success_iff_records [OF h, of ?payload] obtain tr' res where
    r: "finish (Some ?payload) ?tr = (tr', Inr res)"
       "(\<forall>t \<in> fst ` set ?payload. t \<notin> fst ` set (fed ?tr)) \<longrightarrow>
           \<not> success res \<and> results res = [] \<and> warnings res = map fst ?payload"
    by blast
  from r(2) u have "\<not> success res \<and> results res = [] \<and> warnings res = map fst ?payload" by blast
  then have e: "\<not> success res \<and> results res = [] \<and> warnings res = [0, 1, 2]"
    unfolding m .
  show ?thesis
    by (intro conjI exI [of _ tr'] exI [of _ res]) (rule h, rule r(1), (simp add: e)+)
qed

section \<open>The pose error\<close>

lemma np_linalg_norm_nonneg: "0 \<le> np_linalg_norm v"
  by (cases v) simp

lemma np_linalg_norm_pos_iff: "0 < np_linalg_norm v \<longleftrightarrow> np_linalg_norm v \<noteq> 0"
  using np_linalg_norm_nonneg [of v] by linarith

lemma np_linalg_norm_zero_iff: "np_linalg_norm v = 0 \<longleftrightarrow> v = (0, 0, 0)"
proof (cases v)
  case (fields a b c)
  have "a * a + b * b + c * c = 0 \<longleftrightarrow> a = 0 \<and> b = 0 \<and> c = 0"
    by (metis add_nonneg_eq_0_iff mult_eq_0_iff zero_le_square add_nonneg_nonneg)
  then show ?thesis using fields by simp
qed

lemma vec_sub_self: "vec_sub v v = (0, 0, 0)"
  by (cases v) simp

lemma err_length_make_pose_error:
  "err_length (make_pose_error qd e r) = np_linalg_norm (vec_sub (location e) (location r))"
  by (simp add: make_pose_error_def Let_def)

lemma err_direction_make_pose_error:
  "err_direction (make_pose_error qd e r) =
     (if 0 < np_linalg_norm (vec_sub (location e) (location r)) \<and> 0 < np_linalg_norm (location r)
      then Some (arccos (min 1 (max 0 (np_dot (unit_error e r) (unit_reference_location r)))))
      else None)"
  by (simp add: make_pose_error_def Let_def unit_error_def unit_reference_location_def)


lemma cauchy_schwarz3:
  fixes a0 a1 a2 b0 b1 b2 :: real
  shows "(a0 * b0 + a1 * b1 + a2 * b2)\<^sup>2 \<le> (a0 * a0 + a1 * a1 + a2 * a2) * (b0 * b0 + b1 * b1 + b2 * b2)"
proof -
  have "(a0 * a0 + a1 * a1 + a2 * a2) * (b0 * b0 + b1 * b1 + b2 * b2) - (a0 * b0 + a1 * b1 + a2 * b2)\<^sup>2
        = (a0 * b1 - a1 * b0)\<^sup>2 + (a0 * b2 - a2 * b0)\<^sup>2 + (a1 * b2 - a2 * b1)\<^sup>2"
    by (simp add: power2_eq_square algebra_simps)
  moreover have "0 \<le> (a0 * b1 - a1 * b0)\<^sup>2 + (a0 * b2 - a2 * b0)\<^sup>2 + (a1 * b2 - a2 * b1)\<^sup>2"
    by simp
  ultimately show ?thesis by linarith
qed

lemma np_dot_abs_le: "\<bar>np_dot a b\<bar> \<le> np_linalg_norm a * np_linalg_norm b"
proof (cases a, cases b)
  fix a0 a1 a2 b0 b1 b2
  assume a: "a = (a0, a1, a2)" and b: "b = (b0, b1, b2)"
  have "\<bar>a0 * b0 + a1 * b1 + a2 * b2\<bar> = sqrt ((a0 * b0 + a1 * b1 + a2 * b2)\<^sup>2)"
    by simp
  also have "\<dots> \<le> sqrt ((a0 * a0 + a1 * a1 + a2 * a2) * (b0 * b0 + b1 * b1 + b2 * b2))"
    using cauchy_schwarz3 [of a0 b0 a1 b1 a2 b2] by (simp only: real_sqrt_le_iff)
  also have "\<dots> = sqrt (a0 * a0 + a1 * a1 + a2 * a2) * sqrt (b0 * b0 + b1 * b1 + b2 * b2)"
    by (simp add: real_sqrt_mult)
  finally show ?thesis using a b by simp
qed

lemma np_dot_vec_div: "np_dot (vec_div a c) (vec_div b d) = np_dot a b / (c * d)"
  by (cases a, cases b) (simp add: add_divide_distrib)

lemma unit_dot_ge_minus_one:
  assumes "0 < np_linalg_norm (vec_sub (location e) (location r))" and "0 < np_linalg_norm (location r)"
  shows "- 1 \<le> np_dot (unit_error e r) (unit_reference_location r)"
proof -
  let ?a = "vec_sub (location e) (location r)"
  let ?b = "location r"
  have pos: "0 < np_linalg_norm ?a * np_linalg_norm ?b" using assms by simp
  have "- (np_linalg_norm ?a * np_linalg_norm ?b) \<le> np_dot ?a ?b"
    using np_dot_abs_le [of ?a ?b] by linarith
  then have "- 1 \<le> np_dot ?a ?b / (np_linalg_norm ?a * np_linalg_norm ?b)"
    using pos by (simp add: pos_le_divide_eq)
  then show ?thesis by (simp add: unit_error_def unit_reference_location_def np_dot_vec_div)
qed

text \<open>
  Claim C9. A defined direction lies between 0 and \<open>pi / 2\<close>. When the inner product of
  the two unit vectors is negative (an obtuse angle, whose true value is above \<open>pi / 2\<close>),
  the direction reported is \<open>pi / 2\<close>.
\<close>

theorem make_pose_error_direction_range:
  "(err_direction (make_pose_error qd e r) = Some d \<longrightarrow> 0 \<le> d \<and> d \<le> pi / 2)
   \<and> (err_length (make_pose_error qd e r) \<noteq> 0 \<and> np_linalg_norm (location r) \<noteq> 0
        \<and> np_dot (unit_error e r) (unit_reference_location r) < 0 \<longrightarrow>
        err_direction (make_pose_error qd e r) = Some (pi / 2)
        \<and> pi / 2 < arccos (np_dot (unit_error e r) (unit_reference_location r)))"
proof (intro conjI impI)
  assume d: "err_direction (make_pose_error qd e r) = Some d"
  let ?c = "min 1 (max 0 (np_dot (unit_error e r) (unit_reference_location r)))"
  from d have "d = arccos ?c"
    unfolding err_direction_make_pose_error by (simp split: if_splits)
  moreover have "0 \<le> ?c" "?c \<le> 1" by simp_all
  ultimately show "0 \<le> d" "d \<le> pi / 2"
    using arccos_lbound [of ?c] arccos_le_pi2 [of ?c] by simp_all
next
  assume h: "err_length (make_pose_error qd e r) \<noteq> 0 \<and> np_linalg_norm (location r) \<noteq> 0
        \<and> np_dot (unit_error e r) (unit_reference_location r) < 0"
  then have pos: "0 < np_linalg_norm (vec_sub (location e) (location r))" "0 < np_linalg_norm (location r)"
    by (simp_all add: err_length_make_pose_error np_linalg_norm_pos_iff)
  from h have neg: "np_dot (unit_error e r) (unit_reference_location r) < 0" by simp
  then have "min 1 (max 0 (np_dot (unit_error e r) (unit_reference_location r))) = 0" by simp
  then show "err_direction (make_pose_error qd e r) = Some (pi / 2)"
    unfolding err_direction_make_pose_error using pos by simp
  show "pi / 2 < arccos (np_dot (unit_error e r) (unit_reference_location r))"
    using arccos_less_arccos [of "np_dot (unit_error e r) (unit_reference_location r)" 0]
      unit_dot_ge_minus_one [OF pos] neg by simp
qed

lemma quat_dot_self_pos: "q \<noteq> (0, 0, 0, 0) \<Longrightarrow> 0 < quat_dot q q"
proof -
  obtain a b c d where q: "q = (a, b, c, d)" by (cases q)
  assume "q \<noteq> (0, 0, 0, 0)"
  then have "a \<noteq> 0 \<or> b \<noteq> 0 \<or> c \<noteq> 0 \<or> d \<noteq> 0" using q by simp
  then have "0 < a * a + b * b + c * c + d * d"
    by (metis add_nonneg_pos add_pos_nonneg not_real_square_gt_zero zero_le_square
        add_nonneg_nonneg)
  then show ?thesis using q by simp
qed

lemma quat_diff_self: "q \<noteq> (0, 0, 0, 0) \<Longrightarrow> quat_diff q q = 0"
proof -
  assume "q \<noteq> (0, 0, 0, 0)"
  then have p: "0 < quat_dot q q" by (rule quat_dot_self_pos)
  then have "\<bar>quat_dot q q\<bar> / (sqrt (quat_dot q q) * sqrt (quat_dot q q)) = 1" by simp
  then show ?thesis by (simp add: quat_diff_def)
qed

lemma pose_quat_diff_self: "pose_quat_diff a a = 0"
  using rotation_quat [of a] by (simp add: pose_quat_diff_def quat_diff_self)

text \<open>
  Claim C6. The error of a pose against itself has \<open>x = y = z = 0\<close>, length 0, rotation
  error 0 and no direction, for every location and every orientation of the pose.
\<close>

theorem make_pose_error_same_pose:
  "make_pose_error pose_quat_diff p p =
     \<lparr>err_x = 0, err_y = 0, err_z = 0, err_length = 0, err_direction = None, err_rot = 0\<rparr>"
  by (simp add: make_pose_error_def Let_def vec_sub_self pose_quat_diff_self)

theorem make_pose_error_same_pose_witness:
  "make_pose_error pose_quat_diff \<lparr>location = (1, 2, 3), rotation = Orientation (1 / 2, 0, 0, 0)\<rparr>
        \<lparr>location = (1, 2, 3), rotation = Orientation (1 / 2, 0, 0, 0)\<rparr> =
      \<lparr>err_x = 0, err_y = 0, err_z = 0, err_length = 0, err_direction = None, err_rot = 0\<rparr>
   \<and> rotation_quat (Orientation (1 / 2, 0, 0, 0)) = (1 / 2, 0, 0, 0)"
proof -
  have "rotation_quat (Orientation (1 / 2, 0, 0, 0)) = (1 / 2, 0, 0, 0)"
    by (rule Orientation_inverse) simp
  with make_pose_error_same_pose
    [of "\<lparr>location = (1, 2, 3), rotation = Orientation (1 / 2, 0, 0, 0)\<rparr>"]
  show ?thesis by blast
qed


theorem make_pose_error_direction_range_witness:
  "err_length (make_pose_error quat_diff \<lparr>location = (0, 0, 0), rotation = (1, 0, 0, 0)\<rparr>
        \<lparr>location = (1, 0, 0), rotation = (1, 0, 0, 0)\<rparr>) \<noteq> 0
   \<and> np_linalg_norm (location \<lparr>location = (1, 0, 0), rotation = (1::real, 0::real, 0::real, 0::real)\<rparr>) \<noteq> 0
   \<and> np_dot (unit_error \<lparr>location = (0, 0, 0), rotation = (1::real, 0::real, 0::real, 0::real)\<rparr>
        \<lparr>location = (1, 0, 0), rotation = (1, 0, 0, 0)\<rparr>)
       (unit_reference_location \<lparr>location = (1, 0, 0), rotation = (1::real, 0::real, 0::real, 0::real)\<rparr>) < 0
   \<and> err_direction (make_pose_error quat_diff \<lparr>location = (0, 0, 0), rotation = (1, 0, 0, 0)\<rparr>
        \<lparr>location = (1, 0, 0), rotation = (1, 0, 0, 0)\<rparr>) = Some (pi / 2)
   \<and> 0 \<le> pi / 2"
proof -
  let ?e = "\<lparr>location = (0::real, 0::real, 0::real), rotation = (1::real, 0::real, 0::real, 0::real)\<rparr>"
  let ?r = "\<lparr>location = (1::real, 0::real, 0::real), rotation = (1::real, 0::real, 0::real, 0::real)\<rparr>"
  have h1: "err_length (make_pose_error quat_diff ?e ?r) \<noteq> 0"
    by (simp add: make_pose_error_def Let_def)
  have h2: "np_linalg_norm (location ?r) \<noteq> 0" by simp
  have h3: "np_dot (unit_error ?e ?r) (unit_reference_location ?r) < 0"
    by (simp add: unit_error_def unit_reference_location_def)
  from make_pose_error_direction_range [of quat_diff ?e ?r "pi / 2"] h1 h2 h3
  have "err_direction (make_pose_error quat_diff ?e ?r) = Some (pi / 2) \<and> 0 \<le> pi / 2" by blast
  then show ?thesis using h1 h2 h3 by blast
qed

section \<open>The aggregates of a frame error result\<close>

lemma set_product_names:
  "set (concat (map (\<lambda>x. map (\<lambda>y. x @ ''_'' @ y) ys) xs)) =
     {x @ ''_'' @ y | x y. x \<in> set xs \<and> y \<in> set ys}"
  by auto

lemma aggregate_columns_set:
  "set aggregate_columns =
     {fn @ ''_'' @ cn | fn cn. fn \<in> fst ` set funcs \<and> cn \<in> fst ` set series_values}"
proof -
  have f: "fst ` set funcs = set [''min'', ''max'', ''mean'', ''median'', ''std'']"
    by (simp add: funcs_def)
  have v: "fst ` set series_values =
      set [''frames_lost'', ''frames_found'', ''times_lost'', ''times_found'',
           ''distance_lost'', ''distance_found'']"
    by (simp add: series_values_def)
  show ?thesis
    unfolding aggregate_columns_def f v by (rule set_product_names)
qed

lemma columns_to_compute_set:
  "set (columns_to_compute columns) =
     {(fn @ ''_'' @ cn, f, d) | fn cn f d.
        (fn, f) \<in> set funcs \<and> (cn, d) \<in> set series_values \<and> fn @ ''_'' @ cn |\<in>| columns}"
  unfolding columns_to_compute_def by (auto split: if_splits)

lemma columns_to_compute_names:
  "set (map fst (columns_to_compute columns)) = requested_aggregates columns"
proof -
  have "fst ` set (columns_to_compute columns) =
      {fn @ ''_'' @ cn | fn cn. fn \<in> fst ` set funcs \<and> cn \<in> fst ` set series_values
         \<and> fn @ ''_'' @ cn |\<in>| columns}"
    unfolding columns_to_compute_set by (auto simp: image_iff) force+
  then show ?thesis unfolding requested_aggregates_def aggregate_columns_set by auto
qed


lemma comprehension_filter_inner:
  "[(fn @ ''_'' @ cn, f, d). (fn, f) \<leftarrow> fs, P (fn @ ''_'' @ cn)] =
     filter (\<lambda>x. P (fst x)) [(fn @ ''_'' @ cn, f, d). (fn, f) \<leftarrow> fs]"
  by (induction fs) auto

lemma comprehension_filter:
  "[(fn @ ''_'' @ cn, f, d). (cn, d) \<leftarrow> vs, (fn, f) \<leftarrow> fs, P (fn @ ''_'' @ cn)] =
     filter (\<lambda>x. P (fst x)) [(fn @ ''_'' @ cn, f, d). (cn, d) \<leftarrow> vs, (fn, f) \<leftarrow> fs]"
proof (induction vs)
  case Nil
  show ?case by simp
next
  case (Cons v vs)
  obtain cn d where v: "v = (cn, d)" by (cases v)
  show ?case using Cons comprehension_filter_inner [where cn = cn and d = d and fs = fs and P = P] by (simp add: v)
qed

lemma all_columns_distinct:
  "distinct (map fst [(fn @ ''_'' @ cn, f, d). (cn, d) \<leftarrow> series_values, (fn, f) \<leftarrow> funcs])"
  by (simp add: funcs_def series_values_def)

lemma columns_to_compute_distinct: "distinct (map fst (columns_to_compute columns))"
  unfolding columns_to_compute_def comprehension_filter [where vs = series_values and fs = funcs and P = "\<lambda>n. n |\<in>| columns"]
  using all_columns_distinct by (rule distinct_map_filter)

lemma compute_columns_other:
  "name \<notin> fst ` set to_compute \<Longrightarrow>
   fmlookup (compute_columns to_compute te other_properties) name = fmlookup other_properties name"
proof (induction to_compute arbitrary: other_properties)
  case Nil
  show ?case by simp
next
  case (Cons c to_compute)
  obtain column func attribute where c: "c = (column, func, attribute)" by (cases c)
  from Cons.prems c have "name \<noteq> column" "name \<notin> fst ` set to_compute" by auto
  then show ?case using Cons.IH c by simp
qed

lemma compute_columns_computed:
  "distinct (map fst to_compute) \<Longrightarrow> (name, func, attribute) \<in> set to_compute \<Longrightarrow>
   fmlookup (compute_columns to_compute te other_properties) name =
     Some (Computed (aggregate_value func (getattr te attribute)))"
proof (induction to_compute arbitrary: other_properties)
  case Nil
  then show ?case by simp
next
  case (Cons c to_compute)
  obtain column func' attribute' where c: "c = (column, func', attribute')" by (cases c)
  show ?case
  proof (cases "(name, func, attribute) = c")
    case True
    then have "name \<notin> fst ` set to_compute" using Cons.prems(1) by force
    then have "fmlookup (compute_columns to_compute te
          (fmupd name (Computed (aggregate_value func (getattr te attribute))) other_properties)) name =
        Some (Computed (aggregate_value func (getattr te attribute)))"
      by (simp add: compute_columns_other)
    then show ?thesis using True [symmetric] by simp
  next
    case False
    then have "(name, func, attribute) \<in> set to_compute" using Cons.prems(2) by simp
    moreover have "distinct (map fst to_compute)" using Cons.prems(1) by simp
    ultimately show ?thesis using Cons.IH c by simp
  qed
qed


lemma get_properties_lookup:
  "fmlookup (get_properties fe C X) name =
     (if name |\<in>| C then (case frame_value fe name of Some v \<Rightarrow> Some v | None \<Rightarrow> fmlookup X name)
      else fmlookup X name)"
  by (auto simp: get_properties_def frame_value_def fmlookup_dom_iff split: option.splits)

lemma compute_columns_lookup:
  assumes "distinct (map fst to_compute)"
  shows "fmlookup (compute_columns to_compute te X) name =
     (case map_of to_compute name of
        Some (func, attribute) \<Rightarrow> Some (Computed (aggregate_value func (getattr te attribute)))
      | None \<Rightarrow> fmlookup X name)"
proof (cases "map_of to_compute name")
  case None
  then have "name \<notin> fst ` set to_compute" by (simp add: map_of_eq_None_iff)
  then show ?thesis using None by (simp add: compute_columns_other)
next
  case (Some fa)
  obtain func attribute where fa: "fa = (func, attribute)" by (cases fa)
  from Some fa have "(name, func, attribute) \<in> set to_compute" by (simp add: map_of_SomeD)
  from compute_columns_computed [OF assms this] show ?thesis using Some fa by simp
qed

lemma get_results_loop_column:
  assumes "distinct (map fst to_compute)"
  shows "map (\<lambda>row. fmlookup row name) (get_results_loop to_compute C trials X) =
     concat (map (\<lambda>te. map (\<lambda>fe. fmlookup (get_properties fe C (compute_columns to_compute te X)) name)
                          (frame_errors te)) trials)"
proof (induction trials arbitrary: X)
  case Nil
  show ?case by simp
next
  case (Cons te trials)
  let ?X = "compute_columns to_compute te X"
  have same: "fmlookup (get_properties fe C (compute_columns to_compute te' ?X)) name =
      fmlookup (get_properties fe C (compute_columns to_compute te' X)) name" for te' fe
    unfolding get_properties_lookup compute_columns_lookup [OF assms]
    by (simp split: option.splits)
  show ?case
    using Cons.IH [of ?X] by (simp add: Let_def same)
qed


lemma concat_trial_frames:
  "concat (map (\<lambda>te. map (g te) (frame_errors te)) trials) =
     map (\<lambda>(te, fe). g te fe) (concat (map (\<lambda>te. map (Pair te) (frame_errors te)) trials))"
  by (induction trials) simp_all

lemma result_column_eq:
  "result_column self cs name =
     map (\<lambda>(te, fe). fmlookup (get_properties fe (fset_of_list cs)
            (compute_columns (columns_to_compute (fset_of_list cs)) te
               (fmfilter (\<lambda>column. column |\<in>| fset_of_list cs) (image_source_properties self)
                  ++\<^sub>f fmfilter (\<lambda>column. column |\<in>| fset_of_list cs) (metric_properties self)))) name)
       (trial_frames self)"
proof -
  let ?C = "fset_of_list cs"
  let ?X = "fmfilter (\<lambda>column. column |\<in>| ?C) (image_source_properties self)
              ++\<^sub>f fmfilter (\<lambda>column. column |\<in>| ?C) (metric_properties self)"
  have "result_column self cs name =
      map (\<lambda>row. fmlookup row name) (get_results_loop (columns_to_compute ?C) ?C (errors self) ?X)"
    by (simp add: result_column_def get_results_def Let_def)
  also have "\<dots> = concat (map (\<lambda>te. map (\<lambda>fe. fmlookup (get_properties fe ?C
        (compute_columns (columns_to_compute ?C) te ?X)) name) (frame_errors te)) (errors self))"
    by (rule get_results_loop_column [OF columns_to_compute_distinct])
  also have "\<dots> = map (\<lambda>(te, fe). fmlookup (get_properties fe ?C
        (compute_columns (columns_to_compute ?C) te ?X)) name)
      (concat (map (\<lambda>te. map (Pair te) (frame_errors te)) (errors self)))"
    by (rule concat_trial_frames)
  finally show ?thesis unfolding trial_frames_def .
qed

lemma map_of_columns_to_compute_None:
  "name \<notin> requested_aggregates columns \<Longrightarrow> map_of (columns_to_compute columns) name = None"
  using columns_to_compute_names [of columns] by (simp add: map_of_eq_None_iff)

lemma map_of_columns_to_compute_Some:
  assumes "(func_name, func) \<in> set funcs" and "(col_name, attribute) \<in> set series_values"
    and "func_name @ ''_'' @ col_name |\<in>| columns"
  shows "map_of (columns_to_compute columns) (func_name @ ''_'' @ col_name) = Some (func, attribute)"
proof -
  have "(func_name @ ''_'' @ col_name, func, attribute) \<in> set (columns_to_compute columns)"
    unfolding columns_to_compute_set using assms by blast
  then show ?thesis using columns_to_compute_distinct [of columns] by (rule map_of_is_SomeI [rotated])
qed

lemma aggregate_value_table:
  "aggregate_value Np_min d = (if d = [] then None else Some (Min (set d)))"
  "aggregate_value Np_max d = (if d = [] then None else Some (Max (set d)))"
  "aggregate_value Np_mean d = (if d = [] then None else Some (sum_list d / real (length d)))"
  "aggregate_value Np_median d =
     (if d = [] then None
      else Some (if odd (length d) then sort d ! (length d div 2)
                 else (sort d ! (length d div 2 - 1) + sort d ! (length d div 2)) / 2))"
  "aggregate_value Np_std d =
     (if d = [] then None
      else Some (sqrt (sum_list (map (\<lambda>x. (x - sum_list d / real (length d))\<^sup>2) d) / real (length d))))"
  by (simp_all add: aggregate_value_def np_mean_def np_median_def np_std_def Let_def)

text \<open>
  Claim C8. For a list of requested columns, the column of the result table of
  \<open>get_results\<close> for a name, row by row over the frame errors of the trials:
  a name that is not requested has no value in any row, so no aggregate is computed for it;
  a requested name \<open><func>_<series>\<close> holds, in the rows of a trial, the statistic of that
  function over that series of the trial (\<open>nan\<close> for an empty series), unless the frame
  error has a value of its own for the name; a requested name that is no aggregate name
  holds no aggregate. The columns computed per trial are the requested aggregate names. The
  five functions are the minimum, the maximum, the mean, the median and the standard
  deviation, and the six series are the lost and found frames, times and distances.
\<close>

theorem get_results_lazy_aggregates:
  "(name \<notin> set cs \<longrightarrow>
      result_column self cs name = map (\<lambda>(te, fe). None) (trial_frames self))
   \<and> (name \<in> set cs \<and> name = func_name @ ''_'' @ col_name \<and> (func_name, func) \<in> set funcs
        \<and> (col_name, attribute) \<in> set series_values \<longrightarrow>
      result_column self cs name =
        map (\<lambda>(te, fe). case frame_value fe name of
                           Some v \<Rightarrow> Some v
                         | None \<Rightarrow> Some (Computed (aggregate_value func (getattr te attribute))))
          (trial_frames self))
   \<and> (name \<in> set cs \<and> name \<notin> set aggregate_columns \<longrightarrow>
      result_column self cs name =
        map (\<lambda>(te, fe). case frame_value fe name of
                           Some v \<Rightarrow> Some v
                         | None \<Rightarrow>
                             (case fmlookup (metric_properties self) name of
                                Some v \<Rightarrow> Some v
                              | None \<Rightarrow> fmlookup (image_source_properties self) name))
          (trial_frames self))
   \<and> set (map fst (columns_to_compute (fset_of_list cs))) = {n \<in> set aggregate_columns. n \<in> set cs}
   \<and> set funcs = {(''min'', Np_min), (''max'', Np_max), (''mean'', Np_mean), (''median'', Np_median),
                   (''std'', Np_std)}
   \<and> set series_values =
        {(''frames_lost'', Frames_lost), (''frames_found'', Frames_found), (''times_lost'', Times_lost),
         (''times_found'', Times_found), (''distance_lost'', Distances_lost),
         (''distance_found'', Distances_found)}
   \<and> aggregate_value Np_min d = (if d = [] then None else Some (Min (set d)))
   \<and> aggregate_value Np_max d = (if d = [] then None else Some (Max (set d)))
   \<and> aggregate_value Np_mean d = (if d = [] then None else Some (sum_list d / real (length d)))
   \<and> aggregate_value Np_median d =
        (if d = [] then None
         else Some (if odd (length d) then sort d ! (length d div 2)
                    else (sort d ! (length d div 2 - 1) + sort d ! (length d div 2)) / 2))
   \<and> aggregate_value Np_std d =
        (if d = [] then None
         else Some (sqrt (sum_list (map (\<lambda>x. (x - sum_list d / real (length d))\<^sup>2) d) / real (length d))))
   \<and> getattr te Frames_lost = map real_of_int (frames_lost te)
   \<and> getattr te Frames_found = map real_of_int (frames_found te)
   \<and> getattr te Times_lost = times_lost te
   \<and> getattr te Times_found = times_found te
   \<and> getattr te Distances_lost = distances_lost te
   \<and> getattr te Distances_found = distances_found te"
proof -
  let ?C = "fset_of_list cs"
  have mem: "n |\<in>| ?C \<longleftrightarrow> n \<in> set cs" for n by (simp add: fset_of_list.rep_eq)
  have a: "result_column self cs name = map (\<lambda>(te, fe). None) (trial_frames self)"
    if "name \<notin> set cs"
  proof -
    from that have "name \<notin> requested_aggregates ?C" by (simp add: requested_aggregates_def mem)
    then have mo: "map_of (columns_to_compute ?C) name = None" by (rule map_of_columns_to_compute_None)
    have m: "name |\<notin>| ?C" using that by (simp add: mem)
    show ?thesis
      unfolding result_column_eq get_properties_lookup
        compute_columns_lookup [OF columns_to_compute_distinct] mo
      using m by (auto split: option.splits)
  qed
  have b: "result_column self cs name =
        map (\<lambda>(te, fe). case frame_value fe name of
                           Some v \<Rightarrow> Some v
                         | None \<Rightarrow> Some (Computed (aggregate_value func (getattr te attribute))))
          (trial_frames self)"
    if "name \<in> set cs \<and> name = func_name @ ''_'' @ col_name \<and> (func_name, func) \<in> set funcs
        \<and> (col_name, attribute) \<in> set series_values"
  proof -
    from that have n: "name = func_name @ ''_'' @ col_name" and m: "name |\<in>| ?C"
      and f: "(func_name, func) \<in> set funcs" and v: "(col_name, attribute) \<in> set series_values"
      using mem by blast+
    from m have "func_name @ ''_'' @ col_name |\<in>| ?C" unfolding n .
    from map_of_columns_to_compute_Some [OF f v this]
    have mo: "map_of (columns_to_compute ?C) name = Some (func, attribute)" unfolding n .
    show ?thesis
      unfolding result_column_eq get_properties_lookup
        compute_columns_lookup [OF columns_to_compute_distinct] mo
      using m by (auto split: option.splits)
  qed
  have c: "result_column self cs name =
        map (\<lambda>(te, fe). case frame_value fe name of
                           Some v \<Rightarrow> Some v
                         | None \<Rightarrow>
                             (case fmlookup (metric_properties self) name of
                                Some v \<Rightarrow> Some v
                              | None \<Rightarrow> fmlookup (image_source_properties self) name))
          (trial_frames self)"
    if "name \<in> set cs \<and> name \<notin> set aggregate_columns"
  proof -
    from that have "name \<notin> requested_aggregates ?C" by (simp add: requested_aggregates_def)
    then have mo: "map_of (columns_to_compute ?C) name = None" by (rule map_of_columns_to_compute_None)
    have m: "name |\<in>| ?C" using that by (simp add: mem)
    have base: "fmlookup (fmfilter (\<lambda>column. column |\<in>| ?C) (image_source_properties self)
                  ++\<^sub>f fmfilter (\<lambda>column. column |\<in>| ?C) (metric_properties self)) name =
        (case fmlookup (metric_properties self) name of
           Some v \<Rightarrow> Some v
         | None \<Rightarrow> fmlookup (image_source_properties self) name)"
      using m by (auto simp: fmlookup_dom_iff split: option.splits)
    show ?thesis
      unfolding result_column_eq get_properties_lookup
        compute_columns_lookup [OF columns_to_compute_distinct] mo
      using m base by (auto split: option.splits)
  qed
  have n: "set (map fst (columns_to_compute ?C)) = {n \<in> set aggregate_columns. n \<in> set cs}"
    unfolding columns_to_compute_names requested_aggregates_def by (simp add: mem)
  have f: "set funcs = {(''min'', Np_min), (''max'', Np_max), (''mean'', Np_mean), (''median'', Np_median),
                   (''std'', Np_std)}"
    by (simp add: funcs_def)
  have v: "set series_values =
        {(''frames_lost'', Frames_lost), (''frames_found'', Frames_found), (''times_lost'', Times_lost),
         (''times_found'', Times_found), (''distance_lost'', Distances_lost),
         (''distance_found'', Distances_found)}"
    by (simp add: series_values_def)
  show ?thesis
    apply (intro conjI impI)
                    apply (erule a)
                   apply (erule b)
                  apply (erule c)
                 apply (rule n)
                apply (rule f)
               apply (rule v)
              apply (rule aggregate_value_table)+
         apply simp_all
    done
qed


lemma example_trial_frames:
  "trial_frames example_result =
     [(example_trial_1, example_frame_error), (example_trial_1, example_frame_error),
      (example_trial_2, example_frame_error)]"
  by (simp add: trial_frames_def example_result_def example_trial_1_def example_trial_2_def)

lemma example_frame_value: "frame_value example_frame_error name = None"
  by (simp add: frame_value_def example_frame_error_def)

theorem get_results_lazy_aggregates_witness:
  "''min_frames_lost'' \<in> set example_columns \<and> ''max_frames_lost'' \<notin> set example_columns
   \<and> result_column example_result example_columns ''min_frames_lost'' =
       [Some (Computed (Some 1)), Some (Computed (Some 1)), Some (Computed None)]
   \<and> result_column example_result example_columns ''mean_times_lost'' =
       [Some (Computed (Some 2)), Some (Computed (Some 2)), Some (Computed None)]
   \<and> result_column example_result example_columns ''median_times_found'' =
       [Some (Computed (Some 2)), Some (Computed (Some 2)), Some (Computed None)]
   \<and> result_column example_result example_columns ''std_distance_lost'' =
       [Some (Computed (Some 0)), Some (Computed (Some 0)), Some (Computed None)]
   \<and> result_column example_result example_columns ''max_frames_found'' =
       [Some (Computed (Some 4)), Some (Computed (Some 4)), Some (Computed None)]
   \<and> result_column example_result example_columns ''max_frames_lost'' = [None, None, None]"
proof -
  have in_min: "''min_frames_lost'' \<in> set example_columns"
    and in_mean: "''mean_times_lost'' \<in> set example_columns"
    and in_median: "''median_times_found'' \<in> set example_columns"
    and in_std: "''std_distance_lost'' \<in> set example_columns"
    and in_max: "''max_frames_found'' \<in> set example_columns"
    and out_max: "''max_frames_lost'' \<notin> set example_columns"
    by (simp_all add: example_columns_def)
  have tables: "(''min'', Np_min) \<in> set funcs" "(''max'', Np_max) \<in> set funcs"
    "(''mean'', Np_mean) \<in> set funcs" "(''median'', Np_median) \<in> set funcs"
    "(''std'', Np_std) \<in> set funcs"
    "(''frames_lost'', Frames_lost) \<in> set series_values"
    "(''frames_found'', Frames_found) \<in> set series_values"
    "(''times_lost'', Times_lost) \<in> set series_values"
    "(''times_found'', Times_found) \<in> set series_values"
    "(''distance_lost'', Distances_lost) \<in> set series_values"
    by (simp_all add: funcs_def series_values_def)
  have data: "getattr example_trial_1 Frames_lost = [3, 1, 2]"
    "getattr example_trial_1 Frames_found = [4]"
    "getattr example_trial_1 Times_lost = [1, 3]"
    "getattr example_trial_1 Times_found = [1, 3, 2]"
    "getattr example_trial_1 Distances_lost = [2, 2]"
    "getattr example_trial_2 a = []" for a
    by (cases a; simp add: example_trial_1_def example_trial_2_def)+
  have srt: "sort [1, 3, 2 :: real] = [1, 2, 3]" by simp
  have aggs: "aggregate_value Np_min [3, 1, 2] = Some 1"
    "aggregate_value Np_max [4] = Some 4"
    "aggregate_value Np_mean [1, 3] = Some 2"
    "aggregate_value Np_median [1, 3, 2] = Some 2"
    "aggregate_value Np_std [2, 2] = Some 0"
    "aggregate_value f [] = None" for f
    by (simp_all add: aggregate_value_def np_mean_def np_median_def np_std_def Let_def srt)
  note t = get_results_lazy_aggregates [where self = example_result and cs = example_columns
      and d = "[]" and te = example_trial_1]
  have c_min: "result_column example_result example_columns ''min_frames_lost'' =
       [Some (Computed (Some 1)), Some (Computed (Some 1)), Some (Computed None)]"
    using t [where name = "''min_frames_lost''" and func_name = "''min''" and col_name = "''frames_lost''"
        and func = Np_min and attribute = Frames_lost, THEN conjunct2, THEN conjunct1]
      in_min tables
    by (simp add: example_trial_frames example_frame_value data aggs del: getattr.simps)
  have c_mean: "result_column example_result example_columns ''mean_times_lost'' =
       [Some (Computed (Some 2)), Some (Computed (Some 2)), Some (Computed None)]"
    using t [where name = "''mean_times_lost''" and func_name = "''mean''" and col_name = "''times_lost''"
        and func = Np_mean and attribute = Times_lost, THEN conjunct2, THEN conjunct1]
      in_mean tables
    by (simp add: example_trial_frames example_frame_value data aggs del: getattr.simps)
  have c_median: "result_column example_result example_columns ''median_times_found'' =
       [Some (Computed (Some 2)), Some (Computed (Some 2)), Some (Computed None)]"
    using t [where name = "''median_times_found''" and func_name = "''median''" and col_name = "''times_found''"
        and func = Np_median and attribute = Times_found, THEN conjunct2, THEN conjunct1]
      in_median tables
    by (simp add: example_trial_frames example_frame_value data aggs del: getattr.simps)
  have c_std: "result_column example_result example_columns ''std_distance_lost'' =
       [Some (Computed (Some 0)), Some (Computed (Some 0)), Some (Computed None)]"
    using t [where name = "''std_distance_lost''" and func_name = "''std''" and col_name = "''distance_lost''"
        and func = Np_std and attribute = Distances_lost, THEN conjunct2, THEN conjunct1]
      in_std tables
    by (simp add: example_trial_frames example_frame_value data aggs del: getattr.simps)
  have c_max: "result_column example_result example_columns ''max_frames_found'' =
       [Some (Computed (Some 4)), Some (Computed (Some 4)), Some (Computed None)]"
    using t [where name = "''max_frames_found''" and func_name = "''max''" and col_name = "''frames_found''"
        and func = Np_max and attribute = Frames_found, THEN conjunct2, THEN conjunct1]
      in_max tables
    by (simp add: example_trial_frames example_frame_value data aggs del: getattr.simps)
  have c_out: "result_column example_result example_columns ''max_frames_lost'' = [None, None, None]"
    using t [where name = "''max_frames_lost''", THEN conjunct1] out_max
    by (simp add: example_trial_frames)
  show ?thesis
    by (intro conjI) (rule in_min, rule out_max, rule c_min, rule c_mean, rule c_median, rule c_std,
      rule c_max, rule c_out)
qed

section \<open>The files read by the TUM import\<close>

lemma find_files_loop_paths:
  "find_files_loop fs to_search r \<Longrightarrow>
   r = Inr (found_root, p1, p2, p3) \<Longrightarrow>
   p1 = path_join found_root ''rgb.txt'' \<and> p2 = path_join found_root ''depth.txt''
     \<and> p3 = path_join found_root ''groundtruth.txt''"
  by (induction rule: find_files_loop.induct) auto

text \<open>
  Claim C10. \<open>find_files\<close> returns the root it found with the paths of \<open>rgb.txt\<close>,
  \<open>depth.txt\<close> and \<open>groundtruth.txt\<close> under it, in that order; \<open>import_dataset\<close> unpacks
  the tuple as root, rgb path, trajectory path and depth path, so that whenever its reads
  succeed the trajectory was parsed from the file named \<open>depth.txt\<close> and the depth image
  filenames were read from the file named \<open>groundtruth.txt\<close>.
\<close>

theorem import_dataset_swapped_paths:
  "(find_files fs base_root (Inr (found_root, p1, p2, p3)) \<longrightarrow>
      p1 = path_join found_root ''rgb.txt'' \<and> p2 = path_join found_root ''depth.txt''
        \<and> p3 = path_join found_root ''groundtruth.txt'')
   \<and> (import_dataset_metadata fs read_image_filenames read_trajectory root_folder
         (Inr (found_root, image_files, trajectory, depth_files)) \<longrightarrow>
       image_files = read_image_filenames (path_join found_root ''rgb.txt'')
       \<and> trajectory = read_trajectory (path_join found_root ''depth.txt'')
       \<and> depth_files = read_image_filenames (path_join found_root ''groundtruth.txt''))"
proof (rule conjI; rule impI)
  assume "find_files fs base_root (Inr (found_root, p1, p2, p3))"
  then show "p1 = path_join found_root ''rgb.txt'' \<and> p2 = path_join found_root ''depth.txt''
        \<and> p3 = path_join found_root ''groundtruth.txt''"
    unfolding find_files_def by (rule find_files_loop_paths [OF _ refl])
next
  assume "import_dataset_metadata fs read_image_filenames read_trajectory root_folder
         (Inr (found_root, image_files, trajectory, depth_files))"
  then obtain rgb_path trajectory_path depth_path where
    f: "find_files fs root_folder (Inr (found_root, rgb_path, trajectory_path, depth_path))"
    and r: "image_files = read_image_filenames rgb_path" "trajectory = read_trajectory trajectory_path"
       "depth_files = read_image_filenames depth_path"
    by (cases rule: import_dataset_metadata.cases) auto
  from f have "rgb_path = path_join found_root ''rgb.txt'' \<and> trajectory_path = path_join found_root ''depth.txt''
        \<and> depth_path = path_join found_root ''groundtruth.txt''"
    unfolding find_files_def by (rule find_files_loop_paths [OF _ refl])
  with r show "image_files = read_image_filenames (path_join found_root ''rgb.txt'')
       \<and> trajectory = read_trajectory (path_join found_root ''depth.txt'')
       \<and> depth_files = read_image_filenames (path_join found_root ''groundtruth.txt'')"
    by simp
qed


lemma example_find_files:
  "find_files example_fs ''data''
     (Inr (''data/seq'', ''data/seq/rgb.txt'', ''data/seq/depth.txt'', ''data/seq/groundtruth.txt''))"
proof -
  have sub: "({''data''} - {''data''}) \<union> subdirectories [(''rgb'', ''data/rgb'', True), (''seq'', ''data/seq'', True)]
      = {''data/seq''}"
    by (simp add: subdirectories_def excluded_folders_def)
  have inner: "find_files_loop example_fs {''data/seq''}
     (Inr (''data/seq'', path_join ''data/seq'' ''rgb.txt'', path_join ''data/seq'' ''depth.txt'',
           path_join ''data/seq'' ''groundtruth.txt''))"
    by (rule find_files_loop.found [OF _ refl refl refl]) (simp_all add: example_fs_def path_join_def)
  have "find_files_loop example_fs {''data''}
     (Inr (''data/seq'', path_join ''data/seq'' ''rgb.txt'', path_join ''data/seq'' ''depth.txt'',
           path_join ''data/seq'' ''groundtruth.txt''))"
  proof (rule find_files_loop.descend [where candidate_root = "''data''", OF _ refl refl refl])
    show "''data'' \<in> {''data''}" by simp
    show "\<not> (isfile example_fs (path_join ''data'' ''rgb.txt'')
            \<and> isfile example_fs (path_join ''data'' ''groundtruth.txt'')
            \<and> isfile example_fs (path_join ''data'' ''depth.txt''))"
      by (simp add: example_fs_def path_join_def)
    show "scandir example_fs ''data'' = Inr [(''rgb'', ''data/rgb'', True), (''seq'', ''data/seq'', True)]"
      by (simp add: example_fs_def)
    show "find_files_loop example_fs
       (({''data''} - {''data''}) \<union> subdirectories [(''rgb'', ''data/rgb'', True), (''seq'', ''data/seq'', True)])
       (Inr (''data/seq'', path_join ''data/seq'' ''rgb.txt'', path_join ''data/seq'' ''depth.txt'',
           path_join ''data/seq'' ''groundtruth.txt''))"
      unfolding sub by (rule inner)
  qed
  then show ?thesis by (simp add: find_files_def path_join_def)
qed

theorem import_dataset_swapped_paths_witness:
  "find_files example_fs ''data''
     (Inr (''data/seq'', ''data/seq/rgb.txt'', ''data/seq/depth.txt'', ''data/seq/groundtruth.txt''))
   \<and> (\<exists>image_files trajectory depth_files.
        import_dataset_metadata example_fs (\<lambda>p. (''image filenames of'', p)) (\<lambda>p. (''trajectory of'', p)) ''data''
          (Inr (''data/seq'', image_files, trajectory, depth_files))
        \<and> trajectory = (''trajectory of'', ''data/seq/depth.txt'')
        \<and> depth_files = (''image filenames of'', ''data/seq/groundtruth.txt''))"
proof -
  let ?rif = "\<lambda>p :: string. (''image filenames of'', p)"
  let ?rt = "\<lambda>p :: string. (''trajectory of'', p)"
  have d: "isdir example_fs ''data''" by (simp add: example_fs_def)
  from import_dataset_metadata.read_metadata [OF d example_find_files refl refl refl]
  obtain image_files trajectory depth_files where
    i: "import_dataset_metadata example_fs ?rif ?rt ''data''
          (Inr (''data/seq'', image_files, trajectory, depth_files))"
    by blast
  have j: "path_join ''data/seq'' ''depth.txt'' = ''data/seq/depth.txt''"
      "path_join ''data/seq'' ''groundtruth.txt'' = ''data/seq/groundtruth.txt''"
    by (simp_all add: path_join_def)
  from import_dataset_swapped_paths [where fs = example_fs and read_image_filenames = ?rif
        and read_trajectory = ?rt and root_folder = "''data''" and found_root = "''data/seq''"
        and image_files = image_files and trajectory = trajectory and depth_files = depth_files,
        THEN conjunct2] i
  have a: "trajectory = ?rt ''data/seq/depth.txt'' \<and> depth_files = ?rif ''data/seq/groundtruth.txt''"
    unfolding j by blast
  show ?thesis using example_find_files i a by blast
qed

end
